theory Spec2Isabelle
  imports Complex_Main
begin

section \<open>Numbers, errors and the exception-passing state programs\<close>

text \<open>
  In the model of the environment Python's floats are read as exact real numbers: its
  arithmetic is without rounding error. (A second reading, over double-precision
  numbers, is given further down for the two places where exact equality of computed
  numbers is at stake.) \<open>int(x)\<close> on a float truncates towards zero, \<open>round(x)\<close>
  rounds to the nearest integer with ties going to the even one, and a true division by
  zero raises \<open>ZeroDivisionError\<close>.
\<close>

datatype error =
    ZeroDivisionError
  | AssertionError
  | KeyError string
  | TypeError
  | AttributeError string
  | ValueError
  | External string

definition py_int :: "real \<Rightarrow> int" where
  "py_int x = (if 0 \<le> x then \<lfloor>x\<rfloor> else \<lceil>x\<rceil>)"

definition py_round :: "real \<Rightarrow> int" where
  "py_round x =
     (let f = \<lfloor>x\<rfloor>; d = x - of_int f
      in if d < 1 / 2 then f
         else if 1 / 2 < d then f + 1
         else if even f then f else f + 1)"

definition py_truediv :: "real \<Rightarrow> real \<Rightarrow> error + real" where
  "py_truediv a b = (if b = 0 then Inl ZeroDivisionError else Inr (a / b))"

text \<open>
  A method of the environment is a program over the state: it returns the state it
  leaves behind together with either the exception raised or the value returned.
\<close>

type_synonym ('s, 'a) prog = "'s \<Rightarrow> 's \<times> (error + 'a)"

definition return :: "'a \<Rightarrow> ('s, 'a) prog" where
  "return x = (\<lambda>s. (s, Inr x))"

definition raise :: "error \<Rightarrow> ('s, 'a) prog" where
  "raise e = (\<lambda>s. (s, Inl e))"

definition bind :: "('s, 'a) prog \<Rightarrow> ('a \<Rightarrow> ('s, 'b) prog) \<Rightarrow> ('s, 'b) prog" where
  "bind m f = (\<lambda>s. case m s of (s', Inl e) \<Rightarrow> (s', Inl e) | (s', Inr x) \<Rightarrow> f x s')"

definition lift :: "error + 'a \<Rightarrow> ('s, 'a) prog" where
  "lift r = (\<lambda>s. (s, r))"

definition modify :: "('s \<Rightarrow> 's) \<Rightarrow> ('s, unit) prog" where
  "modify f = (\<lambda>s. (f s, Inr ()))"

definition get :: "('s \<Rightarrow> 'a) \<Rightarrow> ('s, 'a) prog" where
  "get f = (\<lambda>s. (s, Inr (f s)))"

definition try_except_pass :: "('s, 'a) prog \<Rightarrow> ('s, unit) prog" where
  \<comment> \<open>\<open>try: m except Exception: pass\<close>\<close>
  "try_except_pass m = (\<lambda>s. case m s of (s', _) \<Rightarrow> (s', Inr ()))"

section \<open>Construction: substep count and smoothing schedule\<close>

text \<open>
  Lines 91 to 100 of \<open>trifinger_reach.py\<close>: the number of robot control updates per
  environment step, and the assertion on it.
\<close>

definition compute_steps_per_control :: "real \<Rightarrow> real \<Rightarrow> error + int" where
  "compute_steps_per_control control_rate_s ts =
     (case py_truediv control_rate_s ts of
        Inl e \<Rightarrow> Inl e
      | Inr q \<Rightarrow> Inr (py_round q))"

definition assert_control_rate :: "real \<Rightarrow> real \<Rightarrow> int \<Rightarrow> error + unit" where
  "assert_control_rate control_rate_s ts k =
     (if \<bar>control_rate_s - of_int k * ts\<bar> \<le> 0.000001 then Inr () else Inl AssertionError)"

text \<open>
  Lines 141 to 162: the smoothing schedule. \<open>smoothing_params\<close> is a dictionary; only the
  presence of the key \<open>is_test\<close> is looked at, never its value. \<open>math.inf\<close> as the stop
  episode is \<open>None\<close>.
\<close>

type_synonym params = "string \<rightharpoonup> real"

definition getitem :: "params \<Rightarrow> string \<Rightarrow> error + real" where
  "getitem d k = (case d k of None \<Rightarrow> Inl (KeyError k) | Some v \<Rightarrow> Inr v)"

record smoothing =
  sm_start_episode :: int
  sm_alpha :: real
  sm_increase_step :: real
  sm_stop_episode :: "int option"

definition sum_bind :: "error + 'a \<Rightarrow> ('a \<Rightarrow> error + 'b) \<Rightarrow> error + 'b" where
  "sum_bind r f = (case r of Inl e \<Rightarrow> Inl e | Inr x \<Rightarrow> f x)"

definition init_smoothing :: "params \<Rightarrow> error + smoothing" where
  "init_smoothing smoothing_params =
     (if smoothing_params ''is_test'' \<noteq> None then
        sum_bind (getitem smoothing_params ''final_alpha'') (\<lambda>final_alpha.
        Inr \<lparr>sm_start_episode = 0, sm_alpha = final_alpha,
             sm_increase_step = 0, sm_stop_episode = None\<rparr>)
      else
        sum_bind (getitem smoothing_params ''num_episodes'') (\<lambda>num_episodes.
        sum_bind (getitem smoothing_params ''stop_after'') (\<lambda>stop_after.
        let smoothing_stop_episode = py_int (num_episodes * stop_after) in
        sum_bind (getitem smoothing_params ''num_episodes'') (\<lambda>num_episodes'.
        sum_bind (getitem smoothing_params ''start_after'') (\<lambda>start_after.
        let smoothing_start_episode = py_int (num_episodes' * start_after);
            num_smoothing_increase_steps = smoothing_stop_episode - smoothing_start_episode in
        sum_bind (getitem smoothing_params ''final_alpha'') (\<lambda>final_alpha.
        sum_bind (py_truediv final_alpha (of_int num_smoothing_increase_steps)) (\<lambda>step.
        Inr \<lparr>sm_start_episode = smoothing_start_episode, sm_alpha = 0,
             sm_increase_step = step,
             sm_stop_episode = Some smoothing_stop_episode\<rparr>)))))))"


section \<open>Arrays and the helpers of \<open>gym_wrapper.utils\<close>\<close>

text \<open>
  One-dimensional numpy arrays are lists of reals. A scalar times an array multiplies
  every entry; the sum or difference of two arrays is entrywise when the lengths agree,
  broadcasts an array of length one, and raises \<open>ValueError\<close> otherwise. Concatenating
  no arrays at all raises \<open>ValueError\<close> too.
\<close>

definition np_mul :: "real \<Rightarrow> real list \<Rightarrow> real list" where
  "np_mul a xs = map (\<lambda>x. a * x) xs"

definition np_broadcast :: "(real \<Rightarrow> real \<Rightarrow> real) \<Rightarrow> real list \<Rightarrow> real list \<Rightarrow> error + real list" where
  "np_broadcast f xs ys =
     (if length xs = length ys then Inr (map (\<lambda>(x, y). f x y) (zip xs ys))
      else case xs of [x] \<Rightarrow> Inr (map (\<lambda>y. f x y) ys)
           | _ \<Rightarrow> (case ys of [y] \<Rightarrow> Inr (map (\<lambda>x. f x y) xs)
                   | _ \<Rightarrow> Inl ValueError))"

definition np_concatenate :: "real list list \<Rightarrow> error + real list" where
  \<comment> \<open>\<open>np.concatenate\<close> of a sequence of arrays; an empty sequence raises \<open>ValueError\<close>\<close>
  "np_concatenate xss = (if xss = [] then Inl ValueError else Inr (concat xss))"

definition np_add :: "real list \<Rightarrow> real list \<Rightarrow> error + real list" where
  "np_add = np_broadcast (\<lambda>x y. x + y)"

definition np_subtract :: "real list \<Rightarrow> real list \<Rightarrow> error + real list" where
  "np_subtract = np_broadcast (\<lambda>x y. x - y)"

record box =
  low :: "real list"
  high :: "real list"

text \<open>
  Modelled from the spec: \<open>utils.scale\<close> is not among the sources; the spec calls it the
  min-max normalisation of a quantity's range to \<open>[-1, 1]\<close>, a linear remapping.
\<close>

definition scale :: "real list \<Rightarrow> box \<Rightarrow> real list" where
  "scale x space =
     map (\<lambda>(x, l, h). 2 * (x - l) / (h - l) - 1) (zip x (zip (low space) (high space)))"

text \<open>
  Modelled from the spec: \<open>utils.unscale\<close> is not among the sources; it is the linear
  remapping of \<open>[-1, 1]\<close> back onto the quantity's range.
\<close>

definition unscale :: "real list \<Rightarrow> box \<Rightarrow> real list" where
  "unscale y space =
     map (\<lambda>(y, l, h). l + (y + 1) / 2 * (h - l)) (zip y (zip (low space) (high space)))"

text \<open>
  Modelled from the spec: \<open>utils.compute_distance\<close> is not among the sources; the spec
  calls it the Euclidean distance between the finger-tip positions and the goal.
\<close>

definition compute_distance :: "real list list \<Rightarrow> real list list \<Rightarrow> real" where
  "compute_distance a b = sqrt (\<Sum>(x, y) \<leftarrow> zip (concat a) (concat b). (x - y)\<^sup>2)"

text \<open>
  Modelled from the spec: \<open>FingerSpaces.key_to_index\<close> is not among the sources; the
  observation keys map to fixed-size slices laid out in their fixed order, so
  \<open>joint_positions\<close>, the first key, of size \<open>3 * num_fingers\<close>, is the leading slice of
  the flat observation vector.
\<close>

definition joint_positions_slice :: "nat \<Rightarrow> real list \<Rightarrow> real list" where
  "joint_positions_slice num_fingers observation = take (3 * num_fingers) observation"

section \<open>The robot and the environment state\<close>

text \<open>
  The finger robot, the random sampler and the wall clock are collaborators outside the
  sources. They are a record of operations over a world \<open>'w\<close>; each call returns the new
  world and either the exception it raised or its result. Times are whole seconds.
\<close>

record robot_observation =
  position :: "real list"
  velocity :: "real list"

record 'w robot =
  time_step_s :: real
  append_desired_action :: "real list \<Rightarrow> ('w, nat) prog"
  get_observation :: "nat \<Rightarrow> ('w, robot_observation) prog"
  reset_finger_positions_and_velocities :: "real list \<Rightarrow> ('w, robot_observation) prog"
  forward_kinematics :: "real list \<Rightarrow> real list list"
  feasible_random_joint_positions_for_reaching :: "('w, real list) prog"
  sleep_until :: "int \<Rightarrow> ('w, unit) prog"
  time_now :: "'w \<Rightarrow> int"

datatype log_event =
    NewEpisode "real list" "real list list"
  | Append "real list" "real list" int

record 'w env =
  finger :: 'w
  num_fingers :: nat
  steps_per_control :: int
  unscaled_observation_space :: box
  unscaled_action_space :: box
  logger :: "log_event list"
  smoothing_start_episode :: int
  smoothing_alpha :: real
  smoothing_increase_step :: real
  smoothing_stop_episode :: "int option"
  smoothed_action :: "real list option"
  episode_count :: int
  enable_visualization :: bool
  goal_marker :: "real list list"
  synchronize :: bool
  next_start_time :: "int option"
  observation :: "robot_observation option"
  goal :: "real list list"
  printed :: "(int \<times> real) list"

definition on_finger :: "('w, 'a) prog \<Rightarrow> ('w env, 'a) prog" where
  "on_finger m = (\<lambda>s. case m (finger s) of (w, r) \<Rightarrow> (s\<lparr>finger := w\<rparr>, r))"

section \<open>Reward and observation\<close>

definition compute_reward ::
  "'w robot \<Rightarrow> real list option \<Rightarrow> real list list \<Rightarrow> ('w env, real \<times> bool) prog" where
  "compute_reward R observation' goal' =
     (case observation' of
        None \<Rightarrow> raise TypeError
      | Some ob \<Rightarrow>
          (\<lambda>s. let joint_positions = joint_positions_slice (num_fingers s) ob;
                   end_effector_positions = forward_kinematics R joint_positions;
                   distance_to_goal = compute_distance end_effector_positions goal';
                   reward = - distance_to_goal;
                   done = False
               in (s, Inr (reward * of_int (steps_per_control s), done))))"

definition get_state ::
  "'w robot \<Rightarrow> robot_observation \<Rightarrow> real list \<Rightarrow> bool \<Rightarrow> ('w env, real list) prog" where
  "get_state R observation' action log_observation =
     (let tip_positions = forward_kinematics R (position observation')
      in bind (lift (np_concatenate tip_positions)) (\<lambda>end_effector_position.
         let joint_positions = position observation';
             joint_velocities = velocity observation'
         in bind (\<lambda>s. lift (np_concatenate (goal s)) s) (\<lambda>flat_goals.
            bind (lift (np_subtract flat_goals end_effector_position)) (\<lambda>end_effector_to_goal.
            bind (if log_observation
                  then modify (\<lambda>s. s\<lparr>logger := logger s @
                         [Append joint_positions end_effector_position (time_now R (finger s))]\<rparr>)
                  else return ()) (\<lambda>_.
            return (joint_positions @ joint_velocities @ flat_goals @ action))))))"

section \<open>The step method\<close>

text \<open>
  Lines 276 to 292: the action is unscaled and blended with the previous smoothed
  action; when there is none (the first step after a reset) the unscaled action itself
  takes its place.
\<close>

definition smooth_action :: "real list \<Rightarrow> ('w env, real list) prog" where
  "smooth_action action =
     bind (get (\<lambda>s. unscale action (unscaled_action_space s))) (\<lambda>unscaled_action.
     bind (modify (\<lambda>s. if smoothed_action s = None
                        then s\<lparr>smoothed_action := Some unscaled_action\<rparr> else s)) (\<lambda>_.
     bind (\<lambda>s. case smoothed_action s of
                  None \<Rightarrow> raise TypeError s
                | Some previous \<Rightarrow>
                    lift (np_add (np_mul (smoothing_alpha s) previous)
                                 (np_mul (1 - smoothing_alpha s) unscaled_action)) s) (\<lambda>blended.
     bind (modify (\<lambda>s. s\<lparr>smoothed_action := Some blended\<rparr>)) (\<lambda>_.
     return blended))))"

text \<open>
  Lines 296 to 308: the control loop sends the same action \<open>steps_per_control\<close> times and
  keeps the state vector built from the observation of the first iteration.
\<close>

fun control_loop ::
  "'w robot \<Rightarrow> nat \<Rightarrow> real list \<Rightarrow> real list option \<Rightarrow> ('w env, real list option) prog" where
  "control_loop R 0 finger_action state = return state"
| "control_loop R (Suc n) finger_action state =
     bind (on_finger (append_desired_action R finger_action)) (\<lambda>t.
     bind (on_finger (get_observation R t)) (\<lambda>observation'.
     bind (case state of
             None \<Rightarrow> bind (get_state R observation' finger_action True) (\<lambda>st. return (Some st))
           | Some st \<Rightarrow> return (Some st)) (\<lambda>state'.
     bind (modify (\<lambda>s. if synchronize s then s\<lparr>observation := Some observation'\<rparr> else s)) (\<lambda>_.
     control_loop R n finger_action state'))))"

text \<open>
  Lines 309 to 314: the result of a step is the scaled observation, the reward, the done
  flag and the \<open>is_success\<close> entry of the info dictionary, \<open>np.float32(done)\<close>.
\<close>

type_synonym step_result = "real list \<times> real \<times> bool \<times> real"

definition finish_step :: "'w robot \<Rightarrow> real list option \<Rightarrow> ('w env, step_result) prog" where
  "finish_step R state =
     bind (get goal) (\<lambda>goal'.
     bind (compute_reward R state goal') (\<lambda>(reward, done).
     let is_success = (if done then 1 else 0) in
     case state of
       None \<Rightarrow> raise TypeError
     | Some st \<Rightarrow>
         bind (get unscaled_observation_space) (\<lambda>space.
         return (scale st space, reward, done, is_success))))"

definition step :: "'w robot \<Rightarrow> real list \<Rightarrow> ('w env, step_result) prog" where
  "step R action =
     bind (smooth_action action) (\<lambda>finger_action.
     bind (get (\<lambda>s. nat (steps_per_control s))) (\<lambda>n.
     bind (control_loop R n finger_action None) (\<lambda>state.
     finish_step R state)))"

section \<open>The reset method\<close>

definition before_stop :: "int \<Rightarrow> int option \<Rightarrow> bool" where
  "before_stop e stop = (case stop of None \<Rightarrow> True | Some k \<Rightarrow> e < k)"

definition update_smoothing :: "('w env, unit) prog" where
  "update_smoothing =
     bind (modify (\<lambda>s. if smoothing_start_episode s \<le> episode_count s
                           \<and> before_stop (episode_count s) (smoothing_stop_episode s)
                        then s\<lparr>smoothing_alpha := smoothing_alpha s + smoothing_increase_step s\<rparr>
                        else s)) (\<lambda>_.
     modify (\<lambda>s. s\<lparr>printed := printed s @ [(episode_count s, smoothing_alpha s)]\<rparr>))"

text \<open>
  Lines 325 to 335: with a start time set, the robot is frozen at its last observed
  position inside \<open>try ... except Exception: pass\<close>, then the process sleeps until the
  start time, which moves on by four seconds. \<open>self.observation\<close> exists only once a
  step has stored it.
\<close>

definition freeze_in_place :: "'w robot \<Rightarrow> ('w env, unit) prog" where
  "freeze_in_place R =
     bind (\<lambda>s. case observation s of
                  None \<Rightarrow> raise (AttributeError ''observation'') s
                | Some ob \<Rightarrow> return (position ob) s) (\<lambda>p.
     bind (on_finger (append_desired_action R p)) (\<lambda>t.
     bind (on_finger (get_observation R t)) (\<lambda>_.
     return ())))"

definition wait_for_start :: "'w robot \<Rightarrow> int \<Rightarrow> ('w env, unit) prog" where
  "wait_for_start R start =
     bind (on_finger (sleep_until R start)) (\<lambda>_.
     modify (\<lambda>s. s\<lparr>next_start_time := Some (start + 4)\<rparr>))"

definition synchronize_start :: "'w robot \<Rightarrow> ('w env, unit) prog" where
  "synchronize_start R =
     (\<lambda>s. case next_start_time s of
             None \<Rightarrow> return () s
           | Some start \<Rightarrow>
               bind (try_except_pass (freeze_in_place R)) (\<lambda>_. wait_for_start R start) s)"

definition new_episode :: "'w robot \<Rightarrow> ('w env, real list) prog" where
  \<comment> \<open>lines 342 to 367: random start position, random goal, marker, log, observation\<close>
  "new_episode R =
     bind (on_finger (feasible_random_joint_positions_for_reaching R)) (\<lambda>action.
     bind (on_finger (reset_finger_positions_and_velocities R action)) (\<lambda>observation'.
     bind (on_finger (feasible_random_joint_positions_for_reaching R)) (\<lambda>target_joint_config.
     bind (modify (\<lambda>s. s\<lparr>goal := forward_kinematics R target_joint_config\<rparr>)) (\<lambda>_.
     bind (modify (\<lambda>s. if enable_visualization s then s\<lparr>goal_marker := goal s\<rparr> else s)) (\<lambda>_.
     bind (modify (\<lambda>s. s\<lparr>logger := logger s @ [NewEpisode target_joint_config (goal s)]\<rparr>)) (\<lambda>_.
     bind (get_state R observation' action False) (\<lambda>state.
     bind (get unscaled_observation_space) (\<lambda>space.
     return (scale state space)))))))))"

definition reset_episode :: "'w robot \<Rightarrow> ('w env, real list) prog" where
  \<comment> \<open>lines 337 to 340, then the new episode\<close>
  "reset_episode R =
     bind update_smoothing (\<lambda>_.
     bind (modify (\<lambda>s. s\<lparr>episode_count := episode_count s + 1\<rparr>)) (\<lambda>_.
     bind (modify (\<lambda>s. s\<lparr>smoothed_action := None\<rparr>)) (\<lambda>_.
     new_episode R)))"

definition reset :: "'w robot \<Rightarrow> ('w env, real list) prog" where
  "reset R = bind (synchronize_start R) (\<lambda>_. reset_episode R)"

section \<open>The constructor\<close>

text \<open>
  The robot (simulated or real, made from \<open>finger_type\<close>), the number of fingers and
  the two unscaled spaces come from modules outside the sources and are parameters; the
  data logger starts empty, and \<open>seed()\<close>, which the class does not define, leaves no
  trace in the state. With
  \<open>synchronize\<close> set, the first start time is the beginning of the next minute, built
  as \<open>datetime(..., now.minute + 1)\<close>, which raises \<open>ValueError\<close> in the last minute
  of an hour. The constructor ends by calling \<open>reset\<close>.
\<close>

definition init_next_start_time :: "bool \<Rightarrow> int \<Rightarrow> error + int option" where
  "init_next_start_time synchronize' now =
     (if synchronize' then
        let minute = (now div 60) mod 60
        in if minute + 1 \<le> 59 then Inr (Some ((now div 60 + 1) * 60)) else Inl ValueError
      else Inr None)"

definition init_rest ::
  "'w robot \<Rightarrow> 'w \<Rightarrow> nat \<Rightarrow> box \<Rightarrow> box \<Rightarrow> int \<Rightarrow> bool \<Rightarrow> params \<Rightarrow> bool \<Rightarrow> error + 'w env" where
  "init_rest R w n_fingers observation_space action_space k enable_visualization'
      smoothing_params synchronize' =
     sum_bind (init_smoothing smoothing_params) (\<lambda>sm.
     sum_bind (init_next_start_time synchronize' (time_now R w)) (\<lambda>start.
     case reset R
            \<lparr>finger = w, num_fingers = n_fingers, steps_per_control = k,
             unscaled_observation_space = observation_space,
             unscaled_action_space = action_space, logger = [],
             smoothing_start_episode = sm_start_episode sm,
             smoothing_alpha = sm_alpha sm,
             smoothing_increase_step = sm_increase_step sm,
             smoothing_stop_episode = sm_stop_episode sm,
             smoothed_action = None, episode_count = 0,
             enable_visualization = enable_visualization', goal_marker = [],
             synchronize = synchronize', next_start_time = start,
             observation = None, goal = [], printed = []\<rparr> of
       (s, Inl e) \<Rightarrow> Inl e
     | (s, Inr _) \<Rightarrow> Inr s))"

definition init ::
  "'w robot \<Rightarrow> 'w \<Rightarrow> nat \<Rightarrow> box \<Rightarrow> box \<Rightarrow> real \<Rightarrow> bool \<Rightarrow> params \<Rightarrow> bool \<Rightarrow> error + 'w env" where
  "init R w n_fingers observation_space action_space control_rate_s enable_visualization'
      smoothing_params synchronize' =
     sum_bind (compute_steps_per_control control_rate_s (time_step_s R)) (\<lambda>k.
     sum_bind (assert_control_rate control_rate_s (time_step_s R) k) (\<lambda>_.
     init_rest R w n_fingers observation_space action_space k enable_visualization'
       smoothing_params synchronize'))"

section \<open>Collision objects\<close>

text \<open>
  \<open>collision_objects.py\<close>: an object holds the client id and, once its child class has
  created the body, the attribute \<open>_object_id\<close>. The physics engine is a collaborator
  outside the sources: a record of the two operations the destructor uses, over an
  engine state \<open>'p\<close>. The destructor is run on the engine state paired with the list of
  engine calls made so far.
\<close>

datatype pybullet_call = IsConnected int | RemoveBody int int

record 'p pybullet =
  isConnected :: "'p \<Rightarrow> int \<Rightarrow> bool"
  removeBody :: "int \<Rightarrow> int \<Rightarrow> ('p, unit) prog"

record collision_object =
  pybullet_client_id :: int
  object_id :: "int option"

definition BaseCollisionObject_del ::
  "'p pybullet \<Rightarrow> collision_object \<Rightarrow> ('p \<times> pybullet_call list, unit) prog" where
  "BaseCollisionObject_del P obj =
     (\<lambda>(p, calls).
        let client = pybullet_client_id obj;
            calls' = calls @ [IsConnected client]
        in if isConnected P p client then
             (case object_id obj of
                None \<Rightarrow> ((p, calls'), Inl (AttributeError ''_object_id''))
              | Some body \<Rightarrow>
                  (case removeBody P body client p of
                     (p', r) \<Rightarrow> ((p', calls' @ [RemoveBody body client]), r)))
           else ((p, calls'), Inr ()))"

section \<open>Sequences of calls, and the reward as a sum over substeps\<close>

datatype call = Reset | Step "real list"

fun run :: "'w robot \<Rightarrow> call list \<Rightarrow> 'w env \<Rightarrow> 'w env" where
  "run R [] s = s"
| "run R (Reset # cs) s = run R cs (fst (reset R s))"
| "run R (Step a # cs) s = run R cs (fst (step R a s))"

text \<open>
  The reward in the words of the spec, for comparison with \<open>compute_reward\<close>: the
  distances to the goal of the finger tips at every substep, added up. The joint
  positions are those the robot reports at each of the \<open>n\<close> substeps of one step.
\<close>

fun substep_positions :: "'w robot \<Rightarrow> nat \<Rightarrow> real list \<Rightarrow> 'w \<Rightarrow> real list list" where
  "substep_positions R 0 finger_action w = []"
| "substep_positions R (Suc n) finger_action w =
     (case append_desired_action R finger_action w of
        (w', Inl e) \<Rightarrow> []
      | (w', Inr t) \<Rightarrow>
          (case get_observation R t w' of
             (w'', Inl e) \<Rightarrow> []
           | (w'', Inr ob) \<Rightarrow> position ob # substep_positions R n finger_action w''))"

definition summed_distance :: "'w robot \<Rightarrow> real list list \<Rightarrow> real list list \<Rightarrow> real" where
  "summed_distance R goal' positions =
     (\<Sum>q \<leftarrow> positions. compute_distance (forward_kinematics R q) goal')"

definition summed_reward :: "'w robot \<Rightarrow> real list \<Rightarrow> 'w env \<Rightarrow> real" where
  "summed_reward R finger_action s =
     - summed_distance R (goal s)
         (substep_positions R (nat (steps_per_control s)) finger_action (finger s))"

section \<open>Double-precision arithmetic\<close>

text \<open>
  The reals above leave out the rounding of Python's floats. Where a property asks for
  exact equality of computed numbers, the same source lines are read a second time over
  binary64 numbers: every operation returns the exact result rounded to 53 significant
  bits, ties to the even significand. The exponent range is not bounded here, so the
  reading agrees with binary64 wherever nothing overflows or becomes subnormal.
  \<open>blend_double\<close> is the blend of lines 289 to 292, \<open>increase_double\<close> is \<open>k\<close> runs of the
  increase of line 379.
\<close>

definition pow2 :: "int \<Rightarrow> real" where
  "pow2 e = (if 0 \<le> e then 2 ^ nat e else 1 / 2 ^ nat (- e))"

definition to_double :: "real \<Rightarrow> real" where
  "to_double x =
     (if x = 0 then 0
      else let ulp = pow2 (\<lfloor>log 2 \<bar>x\<bar>\<rfloor> - 52)
           in of_int (py_round (x / ulp)) * ulp)"

definition blend_double :: "real \<Rightarrow> real list \<Rightarrow> real list \<Rightarrow> error + real list" where
  "blend_double alpha previous unscaled_action =
     np_broadcast (\<lambda>x y. to_double (x + y))
       (map (\<lambda>v. to_double (alpha * v)) previous)
       (map (\<lambda>v. to_double (to_double (1 - alpha) * v)) unscaled_action)"

fun increase_double :: "real \<Rightarrow> nat \<Rightarrow> real \<Rightarrow> real" where
  "increase_double increase 0 alpha = alpha"
| "increase_double increase (Suc k) alpha = increase_double increase k (to_double (alpha + increase))"

section \<open>A small robot and a small physics engine for concrete runs\<close>

text \<open>
  A one-finger robot whose world is a step counter: every action appended advances the
  counter, the observation at time \<open>t\<close> has the first joint at \<open>t + 1\<close>, the tip position is
  the joint vector itself, and the sampler always returns the origin.
\<close>

definition counter_robot :: "nat robot" where
  "counter_robot =
     \<lparr>time_step_s = 1 / 1000,
      append_desired_action = (\<lambda>a w. (Suc w, Inr w)),
      get_observation =
        (\<lambda>t w. (w, Inr \<lparr>position = [real (Suc t), 0, 0], velocity = [0, 0, 0]\<rparr>)),
      reset_finger_positions_and_velocities =
        (\<lambda>a w. (0, Inr \<lparr>position = a, velocity = [0, 0, 0]\<rparr>)),
      forward_kinematics = (\<lambda>q. [q]),
      feasible_random_joint_positions_for_reaching = (\<lambda>w. (w, Inr [0, 0, 0])),
      sleep_until = (\<lambda>t w. (w, Inr ())),
      time_now = (\<lambda>w. int w)\<rparr>"

definition failing_robot :: "nat robot" where
  "failing_robot =
     counter_robot\<lparr>append_desired_action := (\<lambda>a w. (w, Inl (External ''robot backend'')))\<rparr>"

definition sample_action_space :: box where
  "sample_action_space = \<lparr>low = [-1, -1, -2], high = [1, 1, 2]\<rparr>"

definition wide_observation_space :: box where
  "wide_observation_space =
     \<lparr>low = [-2, -2, -2, -2, -2, -2, -2, -2, -2, -2, -2, -2],
      high = [2, 2, 2, 2, 2, 2, 2, 2, 2, 2, 2, 2]\<rparr>"

definition test_params :: params where
  "test_params = [''final_alpha'' \<mapsto> 1 / 2, ''is_test'' \<mapsto> 1]"

definition training_params :: "real \<Rightarrow> real \<Rightarrow> real \<Rightarrow> real \<Rightarrow> params" where
  "training_params num_episodes start_after stop_after final_alpha =
     [''num_episodes'' \<mapsto> num_episodes, ''start_after'' \<mapsto> start_after,
      ''stop_after'' \<mapsto> stop_after, ''final_alpha'' \<mapsto> final_alpha]"

text \<open>
  The state in which a synchronised constructor in test mode calls \<open>reset\<close>, started
  at time zero: the first start time is the next full minute and no observation has
  been stored yet.
\<close>

definition fresh_env :: "nat env" where
  "fresh_env =
     \<lparr>finger = 0, num_fingers = 1, steps_per_control = 2,
      unscaled_observation_space = wide_observation_space,
      unscaled_action_space = sample_action_space, logger = [],
      smoothing_start_episode = 0, smoothing_alpha = 1 / 2,
      smoothing_increase_step = 0, smoothing_stop_episode = None,
      smoothed_action = None, episode_count = 0,
      enable_visualization = False, goal_marker = [],
      synchronize = True, next_start_time = Some 60,
      observation = None, goal = [], printed = []\<rparr>"

text \<open>
  The environment that the constructor returns for the counter robot, a control period
  of two time steps and the test parameters; and the one it returns for training
  parameters whose schedule starts at one episode, stops at another and climbs by a
  given increase step.
\<close>

definition ready_env :: "nat env" where
  "ready_env =
     \<lparr>finger = 0, num_fingers = 1, steps_per_control = 2,
      unscaled_observation_space = wide_observation_space,
      unscaled_action_space = sample_action_space,
      logger = [NewEpisode [0, 0, 0] [[0, 0, 0]]],
      smoothing_start_episode = 0, smoothing_alpha = 1 / 2,
      smoothing_increase_step = 0, smoothing_stop_episode = None,
      smoothed_action = None, episode_count = 1,
      enable_visualization = False, goal_marker = [],
      synchronize = False, next_start_time = None,
      observation = None, goal = [[0, 0, 0]], printed = [(0, 1 / 2)]\<rparr>"

definition trained_env :: "int \<Rightarrow> int \<Rightarrow> real \<Rightarrow> real \<Rightarrow> nat env" where
  "trained_env start stop increase alpha =
     ready_env\<lparr>smoothing_start_episode := start, smoothing_alpha := alpha,
               smoothing_increase_step := increase, smoothing_stop_episode := Some stop,
               printed := [(0, alpha)]\<rparr>"

text \<open>An engine state is the list of connected clients and the bodies of each.\<close>

record engine =
  connected :: "int list"
  bodies :: "(int \<times> int) list"

definition list_engine :: "engine pybullet" where
  "list_engine =
     \<lparr>isConnected = (\<lambda>p client. client \<in> set (connected p)),
      removeBody = (\<lambda>body client p.
        if client \<in> set (connected p) \<and> (client, body) \<in> set (bodies p)
        then (p\<lparr>bodies := removeAll (client, body) (bodies p)\<rparr>, Inr ())
        else (p, Inl (External ''pybullet.error'')))\<rparr>"

section \<open>Frame conditions\<close>

text \<open>A program keeps a projection of the state when no run of it changes that projection.\<close>

definition keeps :: "('s \<Rightarrow> 'a) \<Rightarrow> ('s, 'b) prog \<Rightarrow> bool" where
  "keeps f m = (\<forall>s. f (fst (m s)) = f s)"

text \<open>
  The smoothing schedule of a state, and the states that are on the schedule that starts
  at episode \<open>a\<close>, stops at episode \<open>b\<close> and ends at the coefficient \<open>f\<close>: the
  coefficient is the share of the increase steps taken so far.
\<close>

definition schedule :: "'w env \<Rightarrow> int \<times> int option \<times> real \<times> real \<times> int" where
  "schedule s =
     (smoothing_start_episode s, smoothing_stop_episode s, smoothing_increase_step s,
      smoothing_alpha s, episode_count s)"

definition on_schedule :: "int \<Rightarrow> int \<Rightarrow> real \<Rightarrow> 'w env \<Rightarrow> bool" where
  "on_schedule a b f s \<longleftrightarrow>
     smoothing_start_episode s = a \<and> smoothing_stop_episode s = Some b
     \<and> smoothing_increase_step s = f / of_int (b - a)
     \<and> 0 \<le> episode_count s
     \<and> smoothing_alpha s = f * of_int (max 0 (min (episode_count s) b - a)) / of_int (b - a)"

section \<open>Unfolding the model\<close>

lemmas prog_defs = return_def raise_def bind_def lift_def modify_def get_def try_except_pass_def on_finger_def

lemma bind_InrD:
  assumes "bind m g s = (s', Inr y)"
  obtains s1 x where "m s = (s1, Inr x)" and "g x s1 = (s', Inr y)"
  using assms by (auto simp: bind_def split: prod.splits sum.splits)

lemma keepsD: "keeps f m \<Longrightarrow> m s = (s', r) \<Longrightarrow> f s' = f s"
  by (auto simp: keeps_def dest: spec [of _ s])

lemma keeps_return: "keeps f (return x)" and keeps_raise: "keeps f (raise e)"
  and keeps_lift: "keeps f (lift r)" and keeps_get: "keeps f (get g)"
  by (simp_all add: keeps_def prog_defs)

lemma keeps_bind: "keeps f m \<Longrightarrow> (\<And>x. keeps f (g x)) \<Longrightarrow> keeps f (bind m g)"
  unfolding keeps_def bind_def
proof
  fix s
  assume m: "\<forall>s. f (fst (m s)) = f s" and g: "\<And>x. \<forall>s. f (fst (g x s)) = f s"
  obtain s' r where ms: "m s = (s', r)" by (cases "m s")
  from m have "f (fst (m s)) = f s" by blast
  with ms have s': "f s' = f s" by simp
  show "f (fst (case m s of (s', Inl e) \<Rightarrow> (s', Inl e) | (s', Inr x) \<Rightarrow> g x s')) = f s"
  proof (cases r)
    case (Inl e)
    with ms s' show ?thesis by simp
  next
    case (Inr x)
    from g [of x] have "f (fst (g x s')) = f s'" by blast
    with ms s' Inr show ?thesis by simp
  qed
qed

lemma keeps_modify: "(\<And>s. f (h s) = f s) \<Longrightarrow> keeps f (modify h)"
  by (simp add: keeps_def modify_def)

lemma keeps_on_finger: "(\<And>s w. f (s\<lparr>finger := w\<rparr>) = f s) \<Longrightarrow> keeps f (on_finger m)"
  by (simp add: keeps_def on_finger_def split: prod.split)

lemma keeps_try: "keeps f m \<Longrightarrow> keeps f (try_except_pass m)"
  unfolding keeps_def try_except_pass_def
proof
  fix s
  assume m: "\<forall>s. f (fst (m s)) = f s"
  then have "f (fst (m s)) = f s" by blast
  then show "f (fst (case m s of (s', _) \<Rightarrow> (s', Inr ()))) = f s"
    by (cases "m s") simp
qed

lemma keeps_get_state:
  assumes "\<And>s x. f (s\<lparr>logger := x\<rparr>) = f s"
  shows "keeps f (get_state R ob a l)"
proof -
  have "keeps f (\<lambda>s. lift (np_concatenate (goal s)) s)"
    by (simp add: keeps_def lift_def)
  moreover have "keeps f (if l then modify (\<lambda>s. s\<lparr>logger := logger s @ [Append p e (time_now R (finger s))]\<rparr>)
                         else return ())" for p e
    by (simp add: keeps_modify keeps_return assms)
  ultimately show ?thesis
    unfolding get_state_def Let_def
    by (intro keeps_bind keeps_lift keeps_return)
qed

lemmas eval_defs = prog_defs smooth_action_def finish_step_def step_def update_smoothing_def
  freeze_in_place_def wait_for_start_def synchronize_start_def new_episode_def reset_episode_def reset_def
  get_state_def compute_reward_def np_mul_def np_add_def np_subtract_def np_broadcast_def
  np_concatenate_def scale_def unscale_def compute_distance_def joint_positions_slice_def before_stop_def
  init_def init_rest_def init_smoothing_def init_next_start_time_def sum_bind_def getitem_def
  py_truediv_def py_int_def py_round_def compute_steps_per_control_def assert_control_rate_def
  counter_robot_def sample_action_space_def wide_observation_space_def test_params_def training_params_def Let_def

section \<open>Rounding to double precision at concrete numbers\<close>

lemma pow2_powr: "pow2 e = 2 powr (of_int e)"
  by (simp add: pow2_def powr_real_of_int inverse_eq_divide)

lemma to_double_at:
  assumes "pow2 e \<le> \<bar>x\<bar>" and "\<bar>x\<bar> < pow2 (e + 1)"
  shows "to_double x = of_int (py_round (x / pow2 (e - 52))) * pow2 (e - 52)"
proof -
  have "0 < pow2 e" by (simp add: pow2_def)
  with assms(1) have pos: "0 < \<bar>x\<bar>" by linarith
  have "\<lfloor>log 2 \<bar>x\<bar>\<rfloor> = e"
    using assms pos by (simp add: floor_log_eq_powr_iff pow2_powr)
  with pos show ?thesis by (simp add: to_double_def Let_def)
qed

lemma double_tenth: "to_double (1 / 10) = 3602879701896397 / 36028797018963968"
  by (subst to_double_at [where e = "- 4"]) (simp_all add: pow2_def py_round_def Let_def)

lemma double_three_tenths: "to_double (3 / 10) = 5404319552844595 / 18014398509481984"
  by (subst to_double_at [where e = "- 2"]) (simp_all add: pow2_def py_round_def Let_def)

lemma double_nine_tenths: "to_double (9 / 10) = 8106479329266893 / 9007199254740992"
  by (subst to_double_at [where e = "- 1"]) (simp_all add: pow2_def py_round_def Let_def)

lemma double_blend_steps:
  "to_double (3602879701896397 / 36028797018963968 * (5404319552844595 / 18014398509481984))
     = 1080863910568919 / 36028797018963968"
  "to_double (1 - 3602879701896397 / 36028797018963968) = 8106479329266893 / 9007199254740992"
  "to_double (8106479329266893 / 9007199254740992 * (5404319552844595 / 18014398509481984))
     = 607985949695017 / 2251799813685248"
  "to_double (1080863910568919 / 36028797018963968 + 607985949695017 / 2251799813685248)
     = 1351079888211149 / 4503599627370496"
     apply (subst to_double_at [where e = "- 6"]; simp add: pow2_def py_round_def Let_def)
    apply (subst to_double_at [where e = "- 1"]; simp add: pow2_def py_round_def Let_def)
   apply (subst to_double_at [where e = "- 2"]; simp add: pow2_def py_round_def Let_def)
  apply (subst to_double_at [where e = "- 2"]; simp add: pow2_def py_round_def Let_def)
  done

lemma double_increase_steps:
  "to_double (8106479329266893 / 9007199254740992 / 3) = 5404319552844595 / 18014398509481984"
  "to_double (0 + 5404319552844595 / 18014398509481984) = 5404319552844595 / 18014398509481984"
  "to_double (5404319552844595 / 18014398509481984 + 5404319552844595 / 18014398509481984)
     = 5404319552844595 / 9007199254740992"
  "to_double (5404319552844595 / 9007199254740992 + 5404319552844595 / 18014398509481984)
     = 2026619832316723 / 2251799813685248"
     apply (subst to_double_at [where e = "- 2"]; simp add: pow2_def py_round_def Let_def)
    apply (subst to_double_at [where e = "- 2"]; simp add: pow2_def py_round_def Let_def)
   apply (subst to_double_at [where e = "- 1"]; simp add: pow2_def py_round_def Let_def)
  apply (subst to_double_at [where e = "- 1"]; simp add: pow2_def py_round_def Let_def)
  done

lemma blend_double_single:
  "blend_double a [x] [x] = Inr [to_double (to_double (a * x) + to_double (to_double (1 - a) * x))]"
  by (simp add: blend_double_def np_broadcast_def)

lemma blend_double_inexact:
  "blend_double (to_double (1 / 10)) [to_double (3 / 10)] [to_double (3 / 10)]
     = Inr [1351079888211149 / 4503599627370496]"
  by (simp only: blend_double_single double_tenth double_three_tenths double_blend_steps)

lemma increase_double_three:
  "increase_double d 3 a = to_double (to_double (to_double (a + d) + d) + d)"
  by (simp add: eval_nat_numeral)

lemma increase_double_inexact:
  "increase_double (to_double (to_double (9 / 10) / 3)) 3 0 = 2026619832316723 / 2251799813685248"
  by (simp only: increase_double_three double_nine_tenths double_increase_steps)

lemma to_double_zero_one: "to_double 0 = 0" "to_double 1 = 1"
  by (simp add: to_double_def) (subst to_double_at [where e = 0]; simp add: pow2_def py_round_def Let_def)

lemma blend_double_zero:
  assumes "\<forall>v \<in> set x. to_double v = v"
  shows "blend_double 0 x x = Inr x"
proof -
  from assms have "map (\<lambda>(p, u). to_double (p + u)) (zip (map (\<lambda>v. 0) x) (map (\<lambda>v. to_double v) x)) = x"
    by (induction x) simp_all
  then show ?thesis
    by (simp add: blend_double_def np_broadcast_def to_double_zero_one)
qed

lemma double_fixed:
  "to_double (5404319552844595 / 18014398509481984) = 5404319552844595 / 18014398509481984"
  by (subst to_double_at [where e = "- 2"]) (simp_all add: pow2_def py_round_def Let_def)

section \<open>Properties of the constructor\<close>

lemma py_round_of_int: "py_round (of_int k) = k"
  by (simp add: py_round_def)

text \<open>
  Claim C3. With a physics time step other than zero, the substep count is the rounded
  quotient of the control period by the time step, and the constructor raises
  \<open>AssertionError\<close> at its assertion exactly when the control period differs from the
  substep count times the time step by more than \<open>0.000001\<close>; otherwise the assertion
  passes and construction goes on with the rest of the constructor. (With a time step of
  zero the division before the assertion raises \<open>ZeroDivisionError\<close>.)
\<close>

theorem control_rate_assertion:
  assumes "time_step_s R \<noteq> 0"
  shows "compute_steps_per_control c (time_step_s R) = Inr (py_round (c / time_step_s R))
    \<and> init R w nf os as c vis sp sync =
     (if \<bar>c - of_int (py_round (c / time_step_s R)) * time_step_s R\<bar> > 0.000001 then Inl AssertionError
      else init_rest R w nf os as (py_round (c / time_step_s R)) vis sp sync)"
  using assms by (simp add: compute_steps_per_control_def py_truediv_def assert_control_rate_def init_def sum_bind_def)

theorem control_rate_assertion_witness:
  "time_step_s counter_robot \<noteq> 0
   \<and> init counter_robot 0 1 wide_observation_space sample_action_space (5 / 2000) False test_params False
       = Inl AssertionError
   \<and> init counter_robot 0 1 wide_observation_space sample_action_space (4000001 / 2000000000) False test_params False
       = init_rest counter_robot 0 1 wide_observation_space sample_action_space 2 False test_params False"
  using control_rate_assertion [where R = counter_robot and c = "5 / 2000" and w = 0 and nf = 1
      and os = wide_observation_space and as = sample_action_space and vis = False
      and sp = test_params and sync = False]
    control_rate_assertion [where R = counter_robot and c = "4000001 / 2000000000" and w = 0
      and nf = 1 and os = wide_observation_space and as = sample_action_space and vis = False
      and sp = test_params and sync = False]
  by (simp add: counter_robot_def py_round_def)

text \<open>
  Claim C4. A control period that is \<open>k\<close> times the physics time step, for an integer
  \<open>k\<close> and a time step other than zero, gives the substep count \<open>k\<close> exactly; the
  assertion then passes and the constructor goes on with \<open>steps_per_control = k\<close>.
\<close>

theorem steps_per_control_exact_multiple:
  assumes "time_step_s R \<noteq> 0"
  shows "compute_steps_per_control (of_int k * time_step_s R) (time_step_s R) = Inr k
     \<and> assert_control_rate (of_int k * time_step_s R) (time_step_s R) k = Inr ()
     \<and> init R w nf os as (of_int k * time_step_s R) vis sp sync = init_rest R w nf os as k vis sp sync"
  using assms by (simp add: compute_steps_per_control_def py_truediv_def py_round_of_int assert_control_rate_def init_def sum_bind_def)

theorem steps_per_control_exact_multiple_witness:
  "time_step_s counter_robot \<noteq> 0
   \<and> compute_steps_per_control (7 / 1000) (time_step_s counter_robot) = Inr 7
   \<and> assert_control_rate (7 / 1000) (time_step_s counter_robot) 7 = Inr ()"
  using steps_per_control_exact_multiple [where R = counter_robot and k = 7]
  by (simp add: counter_robot_def)

text \<open>
  Claim C10. Without the key \<open>is_test\<close> and with the other four keys present, when
  \<open>int(num_episodes * stop_after)\<close> equals \<open>int(num_episodes * start_after)\<close> the
  smoothing set-up raises \<open>ZeroDivisionError\<close>: it divides \<open>final_alpha\<close> by zero
  increase steps. So does every construction that gets as far as the smoothing set-up,
  and no construction at all returns an environment.
\<close>

theorem equal_start_stop_raises:
  assumes "sp ''is_test'' = None"
    and "sp ''num_episodes'' = Some n" and "sp ''stop_after'' = Some b"
    and "sp ''start_after'' = Some a" and "sp ''final_alpha'' = Some f"
    and "py_int (n * b) = py_int (n * a)"
  shows "init_smoothing sp = Inl ZeroDivisionError
    \<and> init_rest R w nf os as k vis sp sync = Inl ZeroDivisionError
    \<and> (compute_steps_per_control c (time_step_s R) = Inr k \<and> assert_control_rate c (time_step_s R) k = Inr ()
         \<longrightarrow> init R w nf os as c vis sp sync = Inl ZeroDivisionError)
    \<and> (\<exists>e. init R w nf os as c vis sp sync = Inl e)"
proof -
  have sm: "init_smoothing sp = Inl ZeroDivisionError"
    using assms by (simp add: init_smoothing_def getitem_def sum_bind_def py_truediv_def)
  then have rest: "\<And>k. init_rest R w nf os as k vis sp sync = Inl ZeroDivisionError"
    by (simp add: init_rest_def sum_bind_def)
  have "\<exists>e. init R w nf os as c vis sp sync = Inl e"
    by (cases "compute_steps_per_control c (time_step_s R)"; cases "assert_control_rate c (time_step_s R) (projr (compute_steps_per_control c (time_step_s R)))")
       (simp_all add: init_def sum_bind_def rest)
  with sm rest show ?thesis by (simp add: init_def sum_bind_def)
qed

theorem equal_start_stop_raises_witness:
  "init_smoothing (training_params 10 (21/100) (29/100) (1/2)) = Inl ZeroDivisionError
   \<and> init counter_robot 0 1 wide_observation_space sample_action_space (2 / 1000) False
        (training_params 10 (21/100) (29/100) (1/2)) False = Inl ZeroDivisionError"
  using equal_start_stop_raises [where sp = "training_params 10 (21/100) (29/100) (1/2)" and n = 10
      and b = "29/100" and a = "21/100" and f = "1/2" and R = counter_robot and c = "2/1000" and k = 2
      and w = 0 and nf = 1 and os = wide_observation_space and as = sample_action_space
      and vis = False and sync = False]
  by (simp add: training_params_def py_int_def compute_steps_per_control_def assert_control_rate_def
      py_truediv_def py_round_def counter_robot_def)

section \<open>Properties of the step and reset methods\<close>

lemma np_add_blend: "np_add (np_mul \<alpha> x) (np_mul (1 - \<alpha>) x) = Inr x"
proof -
  have "map (\<lambda>(a, b). a + b) (zip (map (\<lambda>v. \<alpha> * v) x) (map (\<lambda>v. (1 - \<alpha>) * v) x)) = x"
    by (induction x) (simp_all add: algebra_simps)
  then show ?thesis
    by (simp add: np_add_def np_broadcast_def np_mul_def)
qed

lemma smooth_action_first:
  assumes "smoothed_action s = None"
  shows "smooth_action a s =
           (s\<lparr>smoothed_action := Some (unscale a (unscaled_action_space s))\<rparr>,
            Inr (unscale a (unscaled_action_space s)))"
  using assms by (simp add: smooth_action_def prog_defs np_add_blend)

lemma keeps_smoothed_action_new_episode: "keeps smoothed_action (new_episode R)"
  unfolding new_episode_def
  by (intro keeps_bind keeps_on_finger keeps_modify keeps_get_state keeps_get keeps_return) simp_all

lemma reset_clears_smoothed_action:
  assumes "reset R s0 = (s, Inr ob)"
  shows "smoothed_action s = None"
proof -
  from assms obtain s1 x where "reset_episode R s1 = (s, Inr ob)"
    unfolding reset_def by (rule bind_InrD)
  then obtain s2 u where "new_episode R (s2\<lparr>smoothed_action := None\<rparr>) = (s, Inr ob)"
    by (auto simp: reset_episode_def modify_def elim!: bind_InrD)
  from keepsD [OF keeps_smoothed_action_new_episode this] show ?thesis
    by simp
qed

text \<open>
  Claim C9, as the code has it. After a reset that returns, the stored smoothed action is
  \<open>None\<close>, and the next step blends the unscaled input action with itself. In exact
  arithmetic the blend gives the unscaled action back for every smoothing coefficient:
  it becomes the stored smoothed action and the control loop is run with it. In double
  precision the blend gives a vector of doubles back exactly when the coefficient is
  zero, as it is before the smoothing starts.
\<close>

theorem first_step_issues_unscaled_action:
  assumes "reset R s0 = (s, Inr ob)"
  shows "smoothed_action s = None
    \<and> smooth_action a s =
        (s\<lparr>smoothed_action := Some (unscale a (unscaled_action_space s))\<rparr>,
         Inr (unscale a (unscaled_action_space s)))
    \<and> step R a s =
        bind (control_loop R (nat (steps_per_control s)) (unscale a (unscaled_action_space s)) None)
          (finish_step R) (s\<lparr>smoothed_action := Some (unscale a (unscaled_action_space s))\<rparr>)
    \<and> ((\<forall>v \<in> set x. to_double v = v) \<longrightarrow> blend_double 0 x x = Inr x)"
proof -
  have none: "smoothed_action s = None"
    using assms by (rule reset_clears_smoothed_action)
  then have sm: "smooth_action a s =
        (s\<lparr>smoothed_action := Some (unscale a (unscaled_action_space s))\<rparr>,
         Inr (unscale a (unscaled_action_space s)))"
    by (rule smooth_action_first)
  then have "step R a s =
        bind (control_loop R (nat (steps_per_control s)) (unscale a (unscaled_action_space s)) None)
          (finish_step R) (s\<lparr>smoothed_action := Some (unscale a (unscaled_action_space s))\<rparr>)"
    by (simp add: step_def bind_def get_def)
  with none sm blend_double_zero [of x] show ?thesis by simp
qed

theorem first_step_issues_unscaled_action_witness:
  "smoothed_action (fst (reset counter_robot fresh_env)) = None
   \<and> snd (smooth_action [1 / 2, 0, - 1] (fst (reset counter_robot fresh_env))) = Inr [1 / 2, 0, - 2]
   \<and> blend_double 0 [5404319552844595 / 18014398509481984] [5404319552844595 / 18014398509481984]
       = Inr [5404319552844595 / 18014398509481984]"
proof -
  have r: "reset counter_robot fresh_env
      = (fst (reset counter_robot fresh_env), Inr (projr (snd (reset counter_robot fresh_env))))"
    by (simp add: prog_defs update_smoothing_def synchronize_start_def
      freeze_in_place_def wait_for_start_def new_episode_def reset_episode_def reset_def
      get_state_def np_subtract_def np_broadcast_def np_concatenate_def scale_def
      before_stop_def counter_robot_def wide_observation_space_def fresh_env_def)
  have sp: "unscaled_action_space (fst (reset counter_robot fresh_env)) = sample_action_space"
    by (simp add: prog_defs update_smoothing_def synchronize_start_def
      freeze_in_place_def wait_for_start_def new_episode_def reset_episode_def reset_def
      get_state_def np_subtract_def np_broadcast_def np_concatenate_def scale_def
      before_stop_def counter_robot_def wide_observation_space_def fresh_env_def)
  have d: "\<forall>v \<in> set [5404319552844595 / 18014398509481984 :: real]. to_double v = v"
    by (simp add: double_fixed)
  from first_step_issues_unscaled_action [OF r, of "[1 / 2, 0, - 1]" "[5404319552844595 / 18014398509481984]"] d
  have "smoothed_action (fst (reset counter_robot fresh_env)) = None"
    and "snd (smooth_action [1 / 2, 0, - 1] (fst (reset counter_robot fresh_env)))
          = Inr (unscale [1 / 2, 0, - 1] sample_action_space)"
    and "blend_double 0 [5404319552844595 / 18014398509481984] [5404319552844595 / 18014398509481984]
       = Inr [5404319552844595 / 18014398509481984]"
    by (simp_all add: sp)
  then show ?thesis
    by (simp add: unscale_def sample_action_space_def)
qed

text \<open>
  Claim C9, as it is stated for every smoothing coefficient, fails in double precision:
  with the coefficient \<open>0.1\<close> and the unscaled action \<open>[0.3]\<close> the blend
  \<open>0.1 * 0.3 + (1 - 0.1) * 0.3\<close> is the double above \<open>0.3\<close>, not \<open>0.3\<close> itself.
\<close>

theorem first_step_blend_rounds:
  "to_double (1 / 10) = 3602879701896397 / 36028797018963968
   \<and> to_double (3 / 10) = 5404319552844595 / 18014398509481984
   \<and> blend_double (to_double (1 / 10)) [to_double (3 / 10)] [to_double (3 / 10)]
       = Inr [1351079888211149 / 4503599627370496]
   \<and> blend_double (to_double (1 / 10)) [to_double (3 / 10)] [to_double (3 / 10)]
       \<noteq> Inr [to_double (3 / 10)]"
  by (simp only: blend_double_inexact) (simp add: double_tenth double_three_tenths)

text \<open>
  Claim C8. In a reset with a start time set, when the freeze-in-place step raises, the
  exception is dropped: the synchronisation goes on, from the state the failed step left,
  with the sleep until the start time, and reset continues after it with the episode
  set-up. If the sleep returns, the synchronisation returns without error and the start
  time has moved on by four seconds. (Exceptions are those derived from \<open>Exception\<close>.)
\<close>

theorem freeze_failure_swallowed:
  assumes "next_start_time s = Some start"
    and "freeze_in_place R s = (s1, Inl e)"
  shows "synchronize_start R s = wait_for_start R start s1
    \<and> reset R s = bind (wait_for_start R start) (\<lambda>_. reset_episode R) s1
    \<and> (\<forall>w'. sleep_until R start (finger s1) = (w', Inr ())
          \<longrightarrow> synchronize_start R s = (s1\<lparr>finger := w', next_start_time := Some (start + 4)\<rparr>, Inr ()))"
  using assms
  by (simp add: synchronize_start_def reset_def wait_for_start_def bind_def try_except_pass_def
      on_finger_def modify_def)

theorem freeze_failure_swallowed_witness:
  "freeze_in_place counter_robot fresh_env = (fresh_env, Inl (AttributeError ''observation''))
   \<and> synchronize_start counter_robot fresh_env
       = (fresh_env\<lparr>finger := 0, next_start_time := Some 64\<rparr>, Inr ())
   \<and> freeze_in_place failing_robot
         (fresh_env\<lparr>observation := Some \<lparr>position = [0, 0, 0], velocity = [0, 0, 0]\<rparr>\<rparr>)
       = (fresh_env\<lparr>observation := Some \<lparr>position = [0, 0, 0], velocity = [0, 0, 0]\<rparr>\<rparr>,
          Inl (External ''robot backend''))
   \<and> synchronize_start failing_robot
         (fresh_env\<lparr>observation := Some \<lparr>position = [0, 0, 0], velocity = [0, 0, 0]\<rparr>\<rparr>)
       = (fresh_env\<lparr>observation := Some \<lparr>position = [0, 0, 0], velocity = [0, 0, 0]\<rparr>,
                    finger := 0, next_start_time := Some 64\<rparr>, Inr ())"
proof -
  let ?s = "fresh_env\<lparr>observation := Some \<lparr>position = [0, 0, 0], velocity = [0, 0, 0]\<rparr>\<rparr>"
  have start: "next_start_time fresh_env = Some 60" "next_start_time ?s = Some 60"
    by (simp_all add: fresh_env_def)
  have f1: "freeze_in_place counter_robot fresh_env
              = (fresh_env, Inl (AttributeError ''observation''))"
    by (simp add: freeze_in_place_def prog_defs fresh_env_def)
  have f2: "freeze_in_place failing_robot ?s = (?s, Inl (External ''robot backend''))"
    by (simp add: freeze_in_place_def prog_defs fresh_env_def failing_robot_def)
  have sl: "sleep_until counter_robot 60 (finger fresh_env) = (0, Inr ())"
    "sleep_until failing_robot 60 (finger ?s) = (0, Inr ())"
    by (simp_all add: counter_robot_def failing_robot_def fresh_env_def)
  from freeze_failure_swallowed [OF start(1) f1] sl(1)
  have w1: "synchronize_start counter_robot fresh_env
              = (fresh_env\<lparr>finger := 0, next_start_time := Some (60 + 4)\<rparr>, Inr ())"
    by blast
  from freeze_failure_swallowed [OF start(2) f2] sl(2)
  have w2: "synchronize_start failing_robot ?s
              = (?s\<lparr>finger := 0, next_start_time := Some (60 + 4)\<rparr>, Inr ())"
    by blast
  from f1 f2 w1 w2 show ?thesis by simp
qed

section \<open>Properties of collision objects\<close>

text \<open>
  Claim C7. The destructor of a collision object asks the engine whether the object's
  client is connected. When it is not, that question is the only engine call made, the
  engine state is unchanged and nothing is raised. A removal call is made only when the
  client is connected.
\<close>

theorem del_only_when_connected:
  "(\<not> isConnected P p (pybullet_client_id obj)
      \<longrightarrow> BaseCollisionObject_del P obj (p, calls)
            = ((p, calls @ [IsConnected (pybullet_client_id obj)]), Inr ()))
   \<and> (RemoveBody body client \<in> set (snd (fst (BaseCollisionObject_del P obj (p, calls))))
        \<and> RemoveBody body client \<notin> set calls
      \<longrightarrow> isConnected P p (pybullet_client_id obj))"
  by (auto simp: BaseCollisionObject_del_def Let_def split: option.splits prod.splits)

theorem del_only_when_connected_witness:
  "BaseCollisionObject_del list_engine \<lparr>pybullet_client_id = 0, object_id = Some 5\<rparr>
      (\<lparr>connected = [], bodies = [(0, 5)]\<rparr>, [])
     = ((\<lparr>connected = [], bodies = [(0, 5)]\<rparr>, [IsConnected 0]), Inr ())
   \<and> BaseCollisionObject_del list_engine \<lparr>pybullet_client_id = 0, object_id = Some 5\<rparr>
      (\<lparr>connected = [0], bodies = [(0, 5)]\<rparr>, [])
     = ((\<lparr>connected = [0], bodies = []\<rparr>, [IsConnected 0, RemoveBody 5 0]), Inr ())
   \<and> isConnected list_engine \<lparr>connected = [0], bodies = [(0, 5)]\<rparr> 0"
  using del_only_when_connected [where P = list_engine and p = "\<lparr>connected = [], bodies = [(0, 5)]\<rparr>"
      and obj = "\<lparr>pybullet_client_id = 0, object_id = Some 5\<rparr>" and calls = "[]"]
    del_only_when_connected [where P = list_engine and p = "\<lparr>connected = [0], bodies = [(0, 5)]\<rparr>"
      and obj = "\<lparr>pybullet_client_id = 0, object_id = Some 5\<rparr>" and calls = "[]"
      and body = 5 and client = 0]
  by (simp add: BaseCollisionObject_del_def list_engine_def)

section \<open>Properties of scaling\<close>

lemma unscale_scale_lists:
  assumes "list_all2 (\<lambda>l h. l \<noteq> h) ls (hs :: real list)" and "length x = length ls"
  shows "map (\<lambda>(y, l, h). l + (y + 1) / 2 * (h - l))
           (zip (map (\<lambda>(x, l, h). 2 * (x - l) / (h - l) - 1) (zip x (zip ls hs))) (zip ls hs)) = x"
  using assms
proof (induction ls hs arbitrary: x rule: list_all2_induct)
  case Nil
  then show ?case by simp
next
  case (Cons l ls h hs)
  then obtain v vs where x: "x = v # vs" and len: "length vs = length ls"
    by (cases x) auto
  from Cons.hyps have "h - l \<noteq> 0" by simp
  then have "l + (2 * (v - l) / (h - l) - 1 + 1) / 2 * (h - l) = v"
    by (simp add: field_simps)
  with Cons.IH [OF len] x show ?case by simp
qed

lemma scale_unscale_lists:
  assumes "list_all2 (\<lambda>l h. l \<noteq> h) ls (hs :: real list)" and "length y = length ls"
  shows "map (\<lambda>(x, l, h). 2 * (x - l) / (h - l) - 1)
           (zip (map (\<lambda>(y, l, h). l + (y + 1) / 2 * (h - l)) (zip y (zip ls hs))) (zip ls hs)) = y"
  using assms
proof (induction ls hs arbitrary: y rule: list_all2_induct)
  case Nil
  then show ?case by simp
next
  case (Cons l ls h hs)
  then obtain v vs where y: "y = v # vs" and len: "length vs = length ls"
    by (cases y) auto
  from Cons.hyps have "h - l \<noteq> 0" by simp
  then have "2 * (l + (v + 1) / 2 * (h - l) - l) / (h - l) - 1 = v"
    by (simp add: field_simps)
  with Cons.IH [OF len] y show ?case by simp
qed

text \<open>
  Claim C5. For a space whose lower and upper bounds differ in every component, and a
  vector of the length of the space, unscaling the scaled vector and scaling the unscaled
  vector both give the vector back. (In exact arithmetic the two maps are inverse to each
  other without any tolerance.)
\<close>

theorem scale_unscale_inverse:
  assumes "list_all2 (\<lambda>l h. l \<noteq> h) (low space) (high space)"
    and "length v = length (low space)"
  shows "unscale (scale v space) space = v \<and> scale (unscale v space) space = v"
  using unscale_scale_lists [OF assms] scale_unscale_lists [OF assms]
  by (simp add: scale_def unscale_def)

theorem scale_unscale_inverse_witness:
  "list_all2 (\<lambda>l h. l \<noteq> h) (low sample_action_space) (high sample_action_space)
   \<and> scale [1 / 2, 0, - 2] sample_action_space = [1 / 2, 0, - 1]
   \<and> unscale (scale [1 / 2, 0, - 2] sample_action_space) sample_action_space = [1 / 2, 0, - 2]
   \<and> scale (unscale [1 / 2, 0, - 2] sample_action_space) sample_action_space = [1 / 2, 0, - 2]"
  using scale_unscale_inverse [where space = sample_action_space and v = "[1 / 2, 0, - 2]"]
  by (simp add: sample_action_space_def scale_def)

section \<open>Concrete runs of the constructor\<close>

lemma init_ready:
  "init counter_robot 0 1 wide_observation_space sample_action_space (2 / 1000) False test_params False
     = Inr ready_env"
  by (simp add: eval_defs ready_env_def)

lemma init_trained:
  "init counter_robot 0 1 wide_observation_space sample_action_space (2 / 1000) False
      (training_params 8 (3 / 4) (1 / 4) (1 / 2)) False = Inr (trained_env 6 2 (- (1 / 8)) 0)"
  "init counter_robot 0 1 wide_observation_space sample_action_space (2 / 1000) False
      (training_params 8 (1 / 4) (3 / 4) (- (1 / 2))) False = Inr (trained_env 2 6 (- (1 / 8)) 0)"
  "init counter_robot 0 1 wide_observation_space sample_action_space (2 / 1000) False
      (training_params 8 (- (1 / 4)) (1 / 2) (1 / 2)) False = Inr (trained_env (- 2) 4 (1 / 12) (1 / 12))"
  "init counter_robot 0 1 wide_observation_space sample_action_space (2 / 1000) False
      (training_params 8 (1 / 4) (3 / 4) (1 / 2)) False = Inr (trained_env 2 6 (1 / 8) 0)"
  by (simp_all add: eval_defs ready_env_def trained_env_def)

section \<open>Properties of a step\<close>

lemma keeps_smooth_action:
  assumes "\<And>s x. f (s\<lparr>smoothed_action := x\<rparr>) = f s"
  shows "keeps f (smooth_action a)"
  unfolding keeps_def smooth_action_def prog_defs
  by (auto simp: assms split: option.splits sum.splits)

lemma keeps_control_loop:
  assumes "\<And>s w. f (s\<lparr>finger := w\<rparr>) = f s" and "\<And>s x. f (s\<lparr>logger := x\<rparr>) = f s"
    and "\<And>s x. f (s\<lparr>observation := x\<rparr>) = f s"
  shows "keeps f (control_loop R n a st)"
proof (induction n arbitrary: st)
  case 0
  show ?case by (simp add: keeps_return)
next
  case (Suc n)
  have "keeps f (case st of None \<Rightarrow> bind (get_state R ob a True) (\<lambda>st. return (Some st))
                 | Some st \<Rightarrow> return (Some st))" for ob
    by (cases st) (simp_all add: keeps_bind keeps_get_state keeps_return assms)
  with Suc show ?case
    by (simp add: keeps_bind keeps_on_finger keeps_modify assms)
qed

lemma finish_step_Some:
  "finish_step R (Some st) s =
     (s, Inr (scale st (unscaled_observation_space s),
              - compute_distance (forward_kinematics R (joint_positions_slice (num_fingers s) st)) (goal s)
                * of_int (steps_per_control s),
              False, 0))"
  by (simp add: finish_step_def compute_reward_def prog_defs Let_def)

lemma finish_step_None: "finish_step R None s = (s, Inl TypeError)"
  by (simp add: finish_step_def compute_reward_def prog_defs)

lemma control_loop_Some:
  "control_loop R n a (Some st) s = (s', Inr r) \<Longrightarrow> r = Some st"
proof (induction n arbitrary: s)
  case 0
  then show ?case by (simp add: return_def)
next
  case (Suc n)
  from Suc.prems obtain s1 where "control_loop R n a (Some st) s1 = (s', Inr r)"
    by (auto simp: return_def elim!: bind_InrD)
  then show ?case by (rule Suc.IH)
qed

lemma get_state_result:
  "get_state R ob a l s = (s', Inr st) \<Longrightarrow> st = position ob @ velocity ob @ concat (goal s) @ a"
  by (auto simp: get_state_def Let_def lift_def return_def np_concatenate_def
      elim!: bind_InrD split: if_splits)

lemma control_loop_first:
  assumes "control_loop R (Suc n) a None s = (s', Inr r)"
  obtains s2 t s3 ob where "on_finger (append_desired_action R a) s = (s2, Inr t)"
    and "on_finger (get_observation R t) s2 = (s3, Inr ob)"
    and "r = Some (position ob @ velocity ob @ concat (goal s3) @ a)"
proof -
  from assms obtain s2 t s3 ob s4 st s5 where
    a: "on_finger (append_desired_action R a) s = (s2, Inr t)"
    and b: "on_finger (get_observation R t) s2 = (s3, Inr ob)"
    and c: "get_state R ob a True s3 = (s4, Inr st)"
    and d: "control_loop R n a (Some st) s5 = (s', Inr r)"
    by (auto simp: return_def elim!: bind_InrD)
  from d have "r = Some st" by (rule control_loop_Some)
  with get_state_result [OF c] have "r = Some (position ob @ velocity ob @ concat (goal s3) @ a)"
    by simp
  with a b show ?thesis by (rule that)
qed

lemma step_returns:
  assumes "step R a s = (s', Inr res)"
  obtains s1 fa s2 t s3 ob where "smooth_action a s = (s1, Inr fa)"
    and "on_finger (append_desired_action R fa) s1 = (s2, Inr t)"
    and "on_finger (get_observation R t) s2 = (s3, Inr ob)"
    and "0 < steps_per_control s"
    and "res = (scale (position ob @ velocity ob @ concat (goal s) @ fa) (unscaled_observation_space s),
              - compute_distance (forward_kinematics R
                  (joint_positions_slice (num_fingers s) (position ob @ velocity ob @ concat (goal s) @ fa)))
                  (goal s) * of_int (steps_per_control s),
              False, 0)"
proof -
  from assms obtain s1 fa state sl where
    sm: "smooth_action a s = (s1, Inr fa)"
    and loop: "control_loop R (nat (steps_per_control s1)) fa None s1 = (sl, Inr state)"
    and fin: "finish_step R state sl = (s', Inr res)"
    unfolding step_def by (auto simp: get_def elim!: bind_InrD)
  have k1: "goal s1 = goal s" "steps_per_control s1 = steps_per_control s"
    "num_fingers s1 = num_fingers s" "unscaled_observation_space s1 = unscaled_observation_space s"
    using keepsD [OF keeps_smooth_action sm, of goal]
      keepsD [OF keeps_smooth_action sm, of steps_per_control]
      keepsD [OF keeps_smooth_action sm, of num_fingers]
      keepsD [OF keeps_smooth_action sm, of unscaled_observation_space]
    by simp_all
  have k2: "goal sl = goal s1" "steps_per_control sl = steps_per_control s1"
    "num_fingers sl = num_fingers s1" "unscaled_observation_space sl = unscaled_observation_space s1"
    using keepsD [OF keeps_control_loop loop, of goal]
      keepsD [OF keeps_control_loop loop, of steps_per_control]
      keepsD [OF keeps_control_loop loop, of num_fingers]
      keepsD [OF keeps_control_loop loop, of unscaled_observation_space]
    by simp_all
  from fin obtain st where st: "state = Some st"
    by (cases state) (simp_all add: finish_step_None)
  have pos: "0 < steps_per_control s"
  proof (rule ccontr)
    assume "\<not> 0 < steps_per_control s"
    with k1 have "nat (steps_per_control s1) = 0" by simp
    with loop st show False by (simp add: return_def)
  qed
  then obtain n where n: "nat (steps_per_control s1) = Suc n"
    using k1 by (cases "nat (steps_per_control s1)") simp_all
  from loop [unfolded n] obtain s2 t s3 ob where
    a: "on_finger (append_desired_action R fa) s1 = (s2, Inr t)"
    and b: "on_finger (get_observation R t) s2 = (s3, Inr ob)"
    and r: "state = Some (position ob @ velocity ob @ concat (goal s3) @ fa)"
    by (rule control_loop_first)
  have "goal s3 = goal s"
    using a b k1 by (auto simp: on_finger_def split: prod.splits)
  with r fin k1 k2 have "res = (scale (position ob @ velocity ob @ concat (goal s) @ fa) (unscaled_observation_space s),
              - compute_distance (forward_kinematics R
                  (joint_positions_slice (num_fingers s) (position ob @ velocity ob @ concat (goal s) @ fa)))
                  (goal s) * of_int (steps_per_control s),
              False, 0)"
    by (simp add: finish_step_Some)
  with sm a b pos show ?thesis by (rule that)
qed

text \<open>
  Claim C6. Whenever a step returns, its done flag is \<open>False\<close> and the \<open>is_success\<close>
  entry of its info is \<open>0\<close>; the flag is never true. And a step does return, with
  these values, whenever the substep count is positive and the smoothing and the control
  loop have gone through without an exception. (With a substep count of zero the loop
  builds no state and the reward computation raises \<open>TypeError\<close>.)
\<close>

theorem step_done_always_false:
  "(\<forall>s' obs reward finished info.
       step R a s = (s', Inr (obs, reward, finished, info)) \<longrightarrow> finished = False \<and> info = 0)
   \<and> (0 < steps_per_control s \<and> smooth_action a s = (s1, Inr fa)
        \<and> control_loop R (nat (steps_per_control s)) fa None s1 = (s2, Inr st)
      \<longrightarrow> (\<exists>obs reward. step R a s = (s2, Inr (obs, reward, False, 0))))"
proof (rule conjI)
  show "\<forall>s' obs reward finished info.
       step R a s = (s', Inr (obs, reward, finished, info)) \<longrightarrow> finished = False \<and> info = 0"
  proof (intro allI impI)
    fix s' obs reward finished info
    assume "step R a s = (s', Inr (obs, reward, finished, info))"
    then show "finished = False \<and> info = 0"
      by (rule step_returns) simp
  qed
next
  show "0 < steps_per_control s \<and> smooth_action a s = (s1, Inr fa)
        \<and> control_loop R (nat (steps_per_control s)) fa None s1 = (s2, Inr st)
      \<longrightarrow> (\<exists>obs reward. step R a s = (s2, Inr (obs, reward, False, 0)))"
  proof (rule impI)
  assume h: "0 < steps_per_control s \<and> smooth_action a s = (s1, Inr fa)
        \<and> control_loop R (nat (steps_per_control s)) fa None s1 = (s2, Inr st)"
  then have sm: "smooth_action a s = (s1, Inr fa)" by simp
  have k: "steps_per_control s1 = steps_per_control s"
    using keepsD [OF keeps_smooth_action sm, of steps_per_control] by simp
  from h obtain n where n: "nat (steps_per_control s) = Suc n"
    by (cases "nat (steps_per_control s)") simp_all
  from h have loop: "control_loop R (Suc n) fa None s1 = (s2, Inr st)"
    by (simp add: n)
  then obtain x where "st = Some x"
    by (rule control_loop_first)
  with sm k h show "\<exists>obs reward. step R a s = (s2, Inr (obs, reward, False, 0))"
    by (simp add: step_def bind_def get_def finish_step_Some)
  qed
qed

theorem step_done_always_false_witness:
  "snd (step counter_robot [0, 0, 0] ready_env)
     = Inr ([1 / 2, 0, 0, 0, 0, 0, 0, 0, 0, 0, 0, 0], - 2, False, 0)
   \<and> 0 < steps_per_control ready_env
   \<and> (\<exists>s1 s2 st. smooth_action [0, 0, 0] ready_env = (s1, Inr [0, 0, 0])
        \<and> control_loop counter_robot (nat (steps_per_control ready_env)) [0, 0, 0] None s1 = (s2, Inr st)
        \<and> (\<exists>obs reward. step counter_robot [0, 0, 0] ready_env = (s2, Inr (obs, reward, False, 0))))"
proof -
  have ev: "snd (step counter_robot [0, 0, 0] ready_env)
     = Inr ([1 / 2, 0, 0, 0, 0, 0, 0, 0, 0, 0, 0, 0], - 2, False, 0)"
    by (simp add: eval_defs ready_env_def eval_nat_numeral)
  have pos: "0 < steps_per_control ready_env"
    by (simp add: ready_env_def)
  have sm: "smooth_action [0, 0, 0] ready_env
              = (ready_env\<lparr>smoothed_action := Some [0, 0, 0]\<rparr>, Inr [0, 0, 0])"
    by (simp add: smooth_action_first ready_env_def unscale_def sample_action_space_def)
  obtain s2 r where loop: "control_loop counter_robot (nat (steps_per_control ready_env)) [0, 0, 0] None
      (ready_env\<lparr>smoothed_action := Some [0, 0, 0]\<rparr>) = (s2, r)"
    by (cases "control_loop counter_robot (nat (steps_per_control ready_env)) [0, 0, 0] None
      (ready_env\<lparr>smoothed_action := Some [0, 0, 0]\<rparr>)")
  from ev sm loop obtain st where r: "r = Inr st"
    by (cases r) (simp_all add: step_def bind_def get_def ready_env_def)
  from step_done_always_false [of counter_robot "[0, 0, 0]" ready_env
      "ready_env\<lparr>smoothed_action := Some [0, 0, 0]\<rparr>" "[0, 0, 0]" s2 st] pos sm loop r
  have "\<exists>obs reward. step counter_robot [0, 0, 0] ready_env = (s2, Inr (obs, reward, False, 0))"
    by blast
  with ev pos sm loop r show ?thesis by blast
qed

text \<open>
  Claim C2, as the code has it. Whenever a step returns, the smoothing has produced the
  action sent to the robot, the first substep has appended it and read an observation,
  and the reward is minus the Euclidean distance between the goal and the tip positions
  given by forward kinematics from the joint-position slice of the state vector built
  at that first substep, times the substep count. When the robot reports
  \<open>3 * num_fingers\<close> joint positions, that slice is the joint positions observed at the
  first substep. The observations of the later substeps do not enter the reward.
\<close>

theorem reward_from_first_substep:
  assumes "step R a s = (s', Inr (obs, reward, finished, info))"
  shows "\<exists>s1 fa s2 t s3 ob.
      smooth_action a s = (s1, Inr fa)
      \<and> on_finger (append_desired_action R fa) s1 = (s2, Inr t)
      \<and> on_finger (get_observation R t) s2 = (s3, Inr ob)
      \<and> reward = - compute_distance
            (forward_kinematics R
               (joint_positions_slice (num_fingers s)
                  (position ob @ velocity ob @ concat (goal s) @ fa)))
            (goal s) * of_int (steps_per_control s)
      \<and> (length (position ob) = 3 * num_fingers s
           \<longrightarrow> reward = - compute_distance (forward_kinematics R (position ob)) (goal s)
                          * of_int (steps_per_control s))"
  using assms
proof (rule step_returns)
  fix s1 fa s2 t s3 ob
  assume "smooth_action a s = (s1, Inr fa)"
    and "on_finger (append_desired_action R fa) s1 = (s2, Inr t)"
    and "on_finger (get_observation R t) s2 = (s3, Inr ob)"
    and "(obs, reward, finished, info) =
      (scale (position ob @ velocity ob @ concat (goal s) @ fa) (unscaled_observation_space s),
       - compute_distance (forward_kinematics R
            (joint_positions_slice (num_fingers s) (position ob @ velocity ob @ concat (goal s) @ fa)))
          (goal s) * of_int (steps_per_control s),
       False, 0)"
  then show ?thesis
    by (intro exI [of _ s1] exI [of _ fa] exI [of _ s2] exI [of _ t] exI [of _ s3] exI [of _ ob])
       (simp add: joint_positions_slice_def)
qed

theorem reward_from_first_substep_witness:
  "snd (step counter_robot [0, 0, 0] ready_env)
     = Inr ([1 / 2, 0, 0, 0, 0, 0, 0, 0, 0, 0, 0, 0], - 2, False, 0)
   \<and> (\<exists>ob :: robot_observation. length (position ob) = 3 * num_fingers ready_env
        \<and> (- 2 :: real) = - compute_distance (forward_kinematics counter_robot (position ob)) (goal ready_env)
                    * of_int (steps_per_control ready_env))"
proof -
  have ev: "snd (step counter_robot [0, 0, 0] ready_env)
     = Inr ([1 / 2, 0, 0, 0, 0, 0, 0, 0, 0, 0, 0, 0], - 2, False, 0)"
    by (simp add: eval_defs ready_env_def eval_nat_numeral)
  then have "step counter_robot [0, 0, 0] ready_env
     = (fst (step counter_robot [0, 0, 0] ready_env),
        Inr ([1 / 2, 0, 0, 0, 0, 0, 0, 0, 0, 0, 0, 0], - 2, False, 0))"
    by (simp add: prod_eq_iff)
  from reward_from_first_substep [OF this] obtain s2 t s3 ob s1 fa where
    "on_finger (get_observation counter_robot t) s2 = (s3, Inr ob)"
    and r: "length (position ob) = 3 * num_fingers ready_env
       \<longrightarrow> (- 2 :: real) = - compute_distance (forward_kinematics counter_robot (position ob)) (goal ready_env)
                          * of_int (steps_per_control ready_env)"
    by blast
  then have "length (position ob) = 3 * num_fingers ready_env"
    by (auto simp: on_finger_def counter_robot_def ready_env_def)
  with r have "(- 2 :: real) = - compute_distance (forward_kinematics counter_robot (position ob)) (goal ready_env)
                    * of_int (steps_per_control ready_env)"
    by (rule mp)
  with \<open>length (position ob) = 3 * num_fingers ready_env\<close>
  have "length (position ob) = 3 * num_fingers ready_env
        \<and> (- 2 :: real) = - compute_distance (forward_kinematics counter_robot (position ob)) (goal ready_env)
                    * of_int (steps_per_control ready_env)"
    by (rule conjI)
  then have "\<exists>ob :: robot_observation. length (position ob) = 3 * num_fingers ready_env
        \<and> (- 2 :: real) = - compute_distance (forward_kinematics counter_robot (position ob)) (goal ready_env)
                    * of_int (steps_per_control ready_env)"
    by (rule exI)
  with ev show ?thesis
    by (rule conjI)
qed

text \<open>
  Claim C2, as it is stated, fails. The counter robot, constructed with a control period
  of two time steps, reports the first joint at \<open>1\<close> in the first substep and at \<open>2\<close> in
  the second, with the goal at the origin. The step returns the reward \<open>-2\<close>, the first
  distance times two, whereas the distances of the two substeps add up to \<open>3\<close>: the
  reward is neither minus that sum nor minus that sum times the substep count.
\<close>

theorem reward_not_sum_over_substeps:
  "init counter_robot 0 1 wide_observation_space sample_action_space (2 / 1000) False test_params False
     = Inr ready_env
   \<and> snd (step counter_robot [0, 0, 0] ready_env)
       = Inr ([1 / 2, 0, 0, 0, 0, 0, 0, 0, 0, 0, 0, 0], - 2, False, 0)
   \<and> snd (smooth_action [0, 0, 0] ready_env) = Inr [0, 0, 0]
   \<and> substep_positions counter_robot 2 [0, 0, 0] (finger ready_env) = [[1, 0, 0], [2, 0, 0]]
   \<and> summed_reward counter_robot [0, 0, 0] ready_env = - 3
   \<and> summed_reward counter_robot [0, 0, 0] ready_env * of_int (steps_per_control ready_env) = - 6"
proof -
  have "substep_positions counter_robot 2 [0, 0, 0] (finger ready_env) = [[1, 0, 0], [2, 0, 0]]"
    by (simp add: counter_robot_def ready_env_def eval_nat_numeral)
  moreover from this have "summed_reward counter_robot [0, 0, 0] ready_env = - 3"
    by (simp add: summed_reward_def summed_distance_def compute_distance_def ready_env_def
        counter_robot_def)
  moreover have "snd (step counter_robot [0, 0, 0] ready_env)
       = Inr ([1 / 2, 0, 0, 0, 0, 0, 0, 0, 0, 0, 0, 0], - 2, False, 0)"
    by (simp add: eval_defs ready_env_def eval_nat_numeral)
  moreover have "snd (smooth_action [0, 0, 0] ready_env) = Inr [0, 0, 0]"
    by (simp add: smooth_action_first ready_env_def unscale_def sample_action_space_def)
  moreover have "steps_per_control ready_env = 2"
    by (simp add: ready_env_def)
  ultimately show ?thesis
    using init_ready by simp
qed

section \<open>The smoothing schedule across episodes\<close>

lemma keeps_finish_step: "keeps f (finish_step R st)"
  by (cases st) (simp_all add: keeps_def finish_step_Some finish_step_None)

lemma keeps_step:
  assumes "\<And>s w. f (s\<lparr>finger := w\<rparr>) = f s" and "\<And>s x. f (s\<lparr>logger := x\<rparr>) = f s"
    and "\<And>s x. f (s\<lparr>observation := x\<rparr>) = f s" and "\<And>s x. f (s\<lparr>smoothed_action := x\<rparr>) = f s"
  shows "keeps f (step R a)"
  unfolding step_def
  by (intro keeps_bind keeps_smooth_action keeps_get keeps_control_loop keeps_finish_step assms)

lemma keeps_freeze_in_place:
  assumes "\<And>s w. f (s\<lparr>finger := w\<rparr>) = f s"
  shows "keeps f (freeze_in_place R)"
proof -
  have "keeps f (\<lambda>s. case observation s of
                  None \<Rightarrow> raise (AttributeError ''observation'') s
                | Some ob \<Rightarrow> return (position ob) s)"
    by (simp add: keeps_def raise_def return_def split: option.split)
  then show ?thesis
    unfolding freeze_in_place_def
    by (intro keeps_bind keeps_on_finger keeps_return assms)
qed

lemma keeps_wait_for_start:
  assumes "\<And>s w. f (s\<lparr>finger := w\<rparr>) = f s" and "\<And>s x. f (s\<lparr>next_start_time := x\<rparr>) = f s"
  shows "keeps f (wait_for_start R start)"
  unfolding wait_for_start_def
  by (intro keeps_bind keeps_on_finger keeps_modify assms)

lemma keeps_synchronize_start:
  assumes "\<And>s w. f (s\<lparr>finger := w\<rparr>) = f s" and "\<And>s x. f (s\<lparr>next_start_time := x\<rparr>) = f s"
  shows "keeps f (synchronize_start R)"
  unfolding keeps_def
proof
  fix s
  show "f (fst (synchronize_start R s)) = f s"
  proof (cases "next_start_time s")
    case None
    then show ?thesis by (simp add: synchronize_start_def return_def)
  next
    case (Some start)
    have "keeps f (bind (try_except_pass (freeze_in_place R)) (\<lambda>_. wait_for_start R start))"
      by (intro keeps_bind keeps_try keeps_freeze_in_place keeps_wait_for_start assms)
    then have "f (fst (bind (try_except_pass (freeze_in_place R)) (\<lambda>_. wait_for_start R start) s)) = f s"
      by (simp add: keeps_def)
    with Some show ?thesis by (simp add: synchronize_start_def)
  qed
qed

lemma keeps_new_episode:
  assumes "\<And>s w. f (s\<lparr>finger := w\<rparr>) = f s" and "\<And>s x. f (s\<lparr>logger := x\<rparr>) = f s"
    and "\<And>s x. f (s\<lparr>goal := x\<rparr>) = f s" and "\<And>s x. f (s\<lparr>goal_marker := x\<rparr>) = f s"
  shows "keeps f (new_episode R)"
  unfolding new_episode_def
  by (intro keeps_bind keeps_on_finger keeps_modify keeps_get_state keeps_get keeps_return)
     (simp_all add: assms)

lemma reset_episode_eq:
  "reset_episode R s =
     new_episode R
       (s\<lparr>smoothing_alpha :=
            (if smoothing_start_episode s \<le> episode_count s
                \<and> before_stop (episode_count s) (smoothing_stop_episode s)
             then smoothing_alpha s + smoothing_increase_step s else smoothing_alpha s),
          printed := printed s @
            [(episode_count s,
              if smoothing_start_episode s \<le> episode_count s
                 \<and> before_stop (episode_count s) (smoothing_stop_episode s)
              then smoothing_alpha s + smoothing_increase_step s else smoothing_alpha s)],
          episode_count := episode_count s + 1,
          smoothed_action := None\<rparr>)"
  by (simp add: reset_episode_def update_smoothing_def bind_def modify_def)

lemma reset_schedule:
  "schedule (fst (reset R s)) = schedule s
   \<or> schedule (fst (reset R s)) =
       (smoothing_start_episode s, smoothing_stop_episode s, smoothing_increase_step s,
        (if smoothing_start_episode s \<le> episode_count s
            \<and> before_stop (episode_count s) (smoothing_stop_episode s)
         then smoothing_alpha s + smoothing_increase_step s else smoothing_alpha s),
        episode_count s + 1)"
proof -
  obtain s1 r where sync: "synchronize_start R s = (s1, r)"
    by (cases "synchronize_start R s")
  have k1: "schedule s1 = schedule s"
    using keepsD [OF keeps_synchronize_start sync, of schedule] by (simp add: schedule_def)
  show ?thesis
  proof (cases r)
    case (Inl e)
    with sync k1 show ?thesis by (simp add: reset_def bind_def)
  next
    case (Inr u)
    let ?u = "s1\<lparr>smoothing_alpha :=
            (if smoothing_start_episode s1 \<le> episode_count s1
                \<and> before_stop (episode_count s1) (smoothing_stop_episode s1)
             then smoothing_alpha s1 + smoothing_increase_step s1 else smoothing_alpha s1),
          printed := printed s1 @
            [(episode_count s1,
              if smoothing_start_episode s1 \<le> episode_count s1
                 \<and> before_stop (episode_count s1) (smoothing_stop_episode s1)
              then smoothing_alpha s1 + smoothing_increase_step s1 else smoothing_alpha s1)],
          episode_count := episode_count s1 + 1,
          smoothed_action := None\<rparr>"
    obtain s2 r2 where ne: "new_episode R ?u = (s2, r2)"
      by (cases "new_episode R ?u")
    from sync Inr have "reset R s = reset_episode R s1"
      by (simp add: reset_def bind_def)
    with ne have res: "reset R s = (s2, r2)"
      by (simp only: reset_episode_eq)
    from keepsD [OF keeps_new_episode ne, of schedule]
    have "schedule s2 =
       (smoothing_start_episode s1, smoothing_stop_episode s1, smoothing_increase_step s1,
        (if smoothing_start_episode s1 \<le> episode_count s1
            \<and> before_stop (episode_count s1) (smoothing_stop_episode s1)
         then smoothing_alpha s1 + smoothing_increase_step s1 else smoothing_alpha s1),
        episode_count s1 + 1)"
      by (simp add: schedule_def)
    with k1 res show ?thesis by (simp add: schedule_def)
  qed
qed

lemma step_schedule: "schedule (fst (step R a s)) = schedule s"
  using keeps_step [of schedule R a] by (simp add: keeps_def schedule_def)

lemma increase_step_up: "f * real_of_int k / d + f / d = f * real_of_int (k + 1) / d"
  by (simp add: add_divide_distrib [symmetric] algebra_simps)

lemma on_schedule_reset:
  assumes "0 \<le> a" and "a < b" and "on_schedule a b f s"
  shows "on_schedule a b f (fst (reset R s)) \<and> episode_count s \<le> episode_count (fst (reset R s))"
proof -
  let ?e = "episode_count s" and ?s' = "fst (reset R s)"
  from assms(3) have start: "smoothing_start_episode s = a" and stop: "smoothing_stop_episode s = Some b"
    and inc: "smoothing_increase_step s = f / real_of_int (b - a)" and e0: "0 \<le> ?e"
    and al: "smoothing_alpha s = f * real_of_int (max 0 (min ?e b - a)) / real_of_int (b - a)"
    unfolding on_schedule_def by blast+
  from reset_schedule [of R s] show ?thesis
  proof
    assume "schedule ?s' = schedule s"
    with assms show ?thesis
      by (simp add: schedule_def on_schedule_def)
  next
    assume "schedule ?s' =
       (smoothing_start_episode s, smoothing_stop_episode s, smoothing_increase_step s,
        (if smoothing_start_episode s \<le> ?e \<and> before_stop ?e (smoothing_stop_episode s)
         then smoothing_alpha s + smoothing_increase_step s else smoothing_alpha s),
        ?e + 1)"
    then have start': "smoothing_start_episode ?s' = a" and stop': "smoothing_stop_episode ?s' = Some b"
      and inc': "smoothing_increase_step ?s' = f / real_of_int (b - a)"
      and e': "episode_count ?s' = ?e + 1"
      and al': "smoothing_alpha ?s' =
          (if a \<le> ?e \<and> ?e < b then smoothing_alpha s + smoothing_increase_step s
           else smoothing_alpha s)"
      by (simp_all add: schedule_def start stop inc before_stop_def)
    have "smoothing_alpha ?s' = f * real_of_int (max 0 (min (?e + 1) b - a)) / real_of_int (b - a)"
    proof (cases "a \<le> ?e \<and> ?e < b")
      case True
      then have m: "max 0 (min ?e b - a) = ?e - a" "max 0 (min (?e + 1) b - a) = ?e - a + 1"
        by simp_all
      from True al' have "smoothing_alpha ?s' = smoothing_alpha s + smoothing_increase_step s"
        by simp
      also have "\<dots> = f * real_of_int (?e - a) / real_of_int (b - a) + f / real_of_int (b - a)"
        by (simp only: al inc m)
      also have "\<dots> = f * real_of_int (?e - a + 1) / real_of_int (b - a)"
        by (rule increase_step_up)
      finally show ?thesis by (simp only: m)
    next
      case False
      then have m: "max 0 (min (?e + 1) b - a) = max 0 (min ?e b - a)"
        using assms(2) by auto
      from al' have "smoothing_alpha ?s' = smoothing_alpha s"
        by (simp only: False if_False)
      then show ?thesis by (simp only: al m)
    qed
    then have "smoothing_alpha ?s'
        = f * real_of_int (max 0 (min (episode_count ?s') b - a)) / real_of_int (b - a)"
      by (simp only: e')
    moreover from e0 e' have "0 \<le> episode_count ?s'" and "?e \<le> episode_count ?s'"
      by simp_all
    ultimately show ?thesis
      unfolding on_schedule_def using start' stop' inc' by blast
  qed
qed

lemma on_schedule_step:
  "on_schedule a b f s \<Longrightarrow>
     on_schedule a b f (fst (step R x s)) \<and> episode_count s \<le> episode_count (fst (step R x s))"
  using step_schedule [of R x s] by (simp add: schedule_def on_schedule_def)

lemma on_schedule_run:
  assumes "0 \<le> a" and "a < b"
  shows "on_schedule a b f s \<Longrightarrow>
     on_schedule a b f (run R cs s) \<and> episode_count s \<le> episode_count (run R cs s)"
proof (induction cs arbitrary: s)
  case Nil
  then show ?case by simp
next
  case (Cons c cs)
  show ?case
  proof (cases c)
    case Reset
    from on_schedule_reset [OF assms Cons.prems, of R] Cons.IH [of "fst (reset R s)"] Reset
    show ?thesis by force
  next
    case (Step x)
    from on_schedule_step [OF Cons.prems, of R x] Cons.IH [of "fst (step R x s)"] Step
    show ?thesis by force
  qed
qed

lemma run_append: "run R (cs @ ds) s = run R ds (run R cs s)"
  by (induction R cs s rule: run.induct) simp_all

lemma on_schedule_mono:
  assumes "a < b" and "0 \<le> f" and "on_schedule a b f s" and "on_schedule a b f s'"
    and "episode_count s \<le> episode_count s'"
  shows "smoothing_alpha s \<le> smoothing_alpha s'"
proof -
  have "max 0 (min (episode_count s) b - a) \<le> max 0 (min (episode_count s') b - a)"
    using assms(5) by auto
  then have "real_of_int (max 0 (min (episode_count s) b - a))
        \<le> real_of_int (max 0 (min (episode_count s') b - a))"
    by (simp only: of_int_le_iff)
  with assms(1,2) have "f * real_of_int (max 0 (min (episode_count s) b - a)) / real_of_int (b - a)
      \<le> f * real_of_int (max 0 (min (episode_count s') b - a)) / real_of_int (b - a)"
    by (intro divide_right_mono mult_left_mono) simp_all
  with assms(3,4) show ?thesis by (simp add: on_schedule_def)
qed

lemma on_schedule_final:
  assumes "a < b" and "on_schedule a b f s" and "b \<le> episode_count s"
  shows "smoothing_alpha s = f"
proof -
  from assms(1,3) have "max 0 (min (episode_count s) b - a) = b - a" by simp
  with assms(1,2) show ?thesis by (simp add: on_schedule_def)
qed

lemma init_smoothing_training:
  assumes "sp ''is_test'' = None"
    and "sp ''num_episodes'' = Some n" and "sp ''start_after'' = Some a"
    and "sp ''stop_after'' = Some b" and "sp ''final_alpha'' = Some f"
    and "py_int (n * a) < py_int (n * b)"
  shows "init_smoothing sp =
     Inr \<lparr>sm_start_episode = py_int (n * a), sm_alpha = 0,
          sm_increase_step = f / real_of_int (py_int (n * b) - py_int (n * a)),
          sm_stop_episode = Some (py_int (n * b))\<rparr>"
  using assms by (simp add: init_smoothing_def getitem_def sum_bind_def py_truediv_def Let_def)

lemma init_on_schedule:
  assumes "sp ''is_test'' = None"
    and "sp ''num_episodes'' = Some n" and "sp ''start_after'' = Some a"
    and "sp ''stop_after'' = Some b" and "sp ''final_alpha'' = Some f"
    and "0 \<le> py_int (n * a)" and "py_int (n * a) < py_int (n * b)"
    and "init R w nf os as c vis sp sync = Inr s1"
  shows "on_schedule (py_int (n * a)) (py_int (n * b)) f s1"
proof -
  let ?A = "py_int (n * a)" and ?B = "py_int (n * b)"
  from assms(8) obtain k where "init_rest R w nf os as k vis sp sync = Inr s1"
    by (auto simp: init_def sum_bind_def split: sum.splits)
  then obtain start where r: "(case reset R
            \<lparr>finger = w, num_fingers = nf, steps_per_control = k,
             unscaled_observation_space = os, unscaled_action_space = as, logger = [],
             smoothing_start_episode = ?A, smoothing_alpha = 0,
             smoothing_increase_step = f / real_of_int (?B - ?A),
             smoothing_stop_episode = Some ?B,
             smoothed_action = None, episode_count = 0,
             enable_visualization = vis, goal_marker = [],
             synchronize = sync, next_start_time = start,
             observation = None, goal = [], printed = []\<rparr> of
       (s, Inl e) \<Rightarrow> Inl e
     | (s, Inr _) \<Rightarrow> Inr s) = Inr s1"
    by (auto simp: init_rest_def init_smoothing_training [OF assms(1-5,7)] sum_bind_def
        split: sum.splits)
  define pre where "pre =
            \<lparr>finger = w, num_fingers = nf, steps_per_control = k,
             unscaled_observation_space = os, unscaled_action_space = as, logger = [],
             smoothing_start_episode = ?A, smoothing_alpha = 0,
             smoothing_increase_step = f / real_of_int (?B - ?A),
             smoothing_stop_episode = Some ?B,
             smoothed_action = None, episode_count = 0,
             enable_visualization = vis, goal_marker = [],
             synchronize = sync, next_start_time = start,
             observation = None, goal = [], printed = []\<rparr>"
  from assms(6) have "max 0 (min 0 ?B - ?A) = 0" by simp
  then have pre: "on_schedule ?A ?B f pre"
    by (simp add: on_schedule_def pre_def)
  from r have s1: "s1 = fst (reset R pre)"
    unfolding pre_def [symmetric] by (cases "reset R pre") (auto split: sum.splits)
  from on_schedule_reset [OF assms(6,7) pre, of R] s1 show ?thesis
    by simp
qed

text \<open>
  Claim C1, as the code has it. Take an environment constructed without \<open>is_test\<close>,
  whose start episode \<open>int(num_episodes * start_after)\<close> is not negative and lies before
  its stop episode \<open>int(num_episodes * stop_after)\<close>, and whose \<open>final_alpha\<close> is not
  negative. Along every sequence of reset and step calls after construction, whether
  they return or raise, the smoothing coefficient never decreases; once the episode
  count has reached the stop episode it equals \<open>final_alpha\<close> and stays there; and at
  every moment it is \<open>final_alpha\<close> times the share of the increase steps taken so
  far. (In the exact arithmetic of this model; the rounding of floats is not modelled.)
\<close>

theorem smoothing_alpha_schedule:
  assumes "sp ''is_test'' = None"
    and "sp ''num_episodes'' = Some n" and "sp ''start_after'' = Some a"
    and "sp ''stop_after'' = Some b" and "sp ''final_alpha'' = Some f"
    and "0 \<le> py_int (n * a)" and "py_int (n * a) < py_int (n * b)" and "0 \<le> f"
    and "init R w nf os as c vis sp sync = Inr s1"
  shows "smoothing_alpha (run R cs s1) \<le> smoothing_alpha (run R (cs @ ds) s1)
    \<and> (py_int (n * b) \<le> episode_count (run R cs s1)
         \<longrightarrow> smoothing_alpha (run R cs s1) = f \<and> smoothing_alpha (run R (cs @ ds) s1) = f)
    \<and> smoothing_alpha (run R cs s1)
        = f * real_of_int (max 0 (min (episode_count (run R cs s1)) (py_int (n * b)) - py_int (n * a)))
            / real_of_int (py_int (n * b) - py_int (n * a))"
proof -
  let ?A = "py_int (n * a)" and ?B = "py_int (n * b)"
  let ?s = "run R cs s1" and ?s' = "run R (cs @ ds) s1"
  have s1: "on_schedule ?A ?B f s1"
    using assms(1-7,9) by (rule init_on_schedule)
  from on_schedule_run [OF assms(6,7) s1, of R cs]
  have s: "on_schedule ?A ?B f ?s" by simp
  from on_schedule_run [OF assms(6,7) s, of R ds]
  have s': "on_schedule ?A ?B f ?s'" and le: "episode_count ?s \<le> episode_count ?s'"
    by (simp_all add: run_append)
  have mono: "smoothing_alpha ?s \<le> smoothing_alpha ?s'"
    using assms(7,8) s s' le by (rule on_schedule_mono)
  have final: "smoothing_alpha ?s = f \<and> smoothing_alpha ?s' = f" if "?B \<le> episode_count ?s"
    using on_schedule_final [OF assms(7) s that] on_schedule_final [OF assms(7) s'] that le
    by simp
  from s have "smoothing_alpha ?s
        = f * real_of_int (max 0 (min (episode_count ?s) ?B - ?A)) / real_of_int (?B - ?A)"
    unfolding on_schedule_def by blast
  with mono final show ?thesis by blast
qed

lemma run_counter_robot:
  "schedule (run counter_robot [Reset] (trained_env 6 2 (- (1 / 8)) 0)) = (6, Some 2, - (1 / 8), 0, 2)"
  "schedule (run counter_robot [Reset] (trained_env 1 3 (- (1 / 4)) 0)) = (1, Some 3, - (1 / 4), - (1 / 4), 2)"
  "schedule (run counter_robot [Reset, Reset, Reset] (trained_env (- 2) 4 (1 / 12) (1 / 12)))
     = (- 2, Some 4, 1 / 12, 1 / 3, 4)"
  "schedule (run counter_robot [Reset, Step [0, 0, 0], Reset] (trained_env 1 3 (1 / 4) 0))
     = (1, Some 3, 1 / 4, 1 / 2, 3)"
  "schedule (run counter_robot [Reset, Step [0, 0, 0], Reset, Reset, Step [0, 0, 0]] (trained_env 1 3 (1 / 4) 0))
     = (1, Some 3, 1 / 4, 1 / 2, 4)"
  by (simp_all add: eval_defs ready_env_def trained_env_def schedule_def eval_nat_numeral)

lemma init_trained_more:
  "init counter_robot 0 1 wide_observation_space sample_action_space (2 / 1000) False
      (training_params 4 (1 / 4) (3 / 4) (- (1 / 2))) False = Inr (trained_env 1 3 (- (1 / 4)) 0)"
  "init counter_robot 0 1 wide_observation_space sample_action_space (2 / 1000) False
      (training_params 4 (1 / 4) (3 / 4) (1 / 2)) False = Inr (trained_env 1 3 (1 / 4) 0)"
  by (simp_all add: eval_defs ready_env_def trained_env_def)

theorem smoothing_alpha_schedule_witness:
  "init counter_robot 0 1 wide_observation_space sample_action_space (2 / 1000) False
      (training_params 4 (1 / 4) (3 / 4) (1 / 2)) False = Inr (trained_env 1 3 (1 / 4) 0)
   \<and> py_int (4 * (1 / 4)) = 1 \<and> py_int (4 * (3 / 4)) = 3
   \<and> episode_count (run counter_robot [Reset, Step [0, 0, 0], Reset] (trained_env 1 3 (1 / 4) 0)) = 3
   \<and> smoothing_alpha (run counter_robot [Reset, Step [0, 0, 0], Reset] (trained_env 1 3 (1 / 4) 0)) = 1 / 2
   \<and> smoothing_alpha (run counter_robot ([Reset, Step [0, 0, 0], Reset] @ [Reset, Step [0, 0, 0]])
         (trained_env 1 3 (1 / 4) 0)) = 1 / 2"
proof -
  let ?sp = "training_params 4 (1 / 4) (3 / 4) (1 / 2)"
  let ?cs = "[Reset, Step [0, 0, 0], Reset]"
  have keys: "?sp ''is_test'' = None" "?sp ''num_episodes'' = Some 4" "?sp ''start_after'' = Some (1 / 4)"
    "?sp ''stop_after'' = Some (3 / 4)" "?sp ''final_alpha'' = Some (1 / 2)"
    by (simp_all add: training_params_def)
  have ints: "py_int (4 * (1 / 4)) = 1" "py_int (4 * (3 / 4)) = 3"
    by (simp_all add: py_int_def)
  have bounds: "0 \<le> py_int (4 * (1 / 4))" "py_int (4 * (1 / 4)) < py_int (4 * (3 / 4))" "(0::real) \<le> 1 / 2"
    by (simp_all add: py_int_def)
  have made: "init counter_robot 0 1 wide_observation_space sample_action_space (2 / 1000) False
      ?sp False = Inr (trained_env 1 3 (1 / 4) 0)"
    by (rule init_trained_more)
  have count: "episode_count (run counter_robot ?cs (trained_env 1 3 (1 / 4) 0)) = 3"
    using run_counter_robot(4) by (simp add: schedule_def)
  from smoothing_alpha_schedule [OF keys bounds made, of ?cs "[Reset, Step [0, 0, 0]]"] count
  have "smoothing_alpha (run counter_robot ?cs (trained_env 1 3 (1 / 4) 0)) = 1 / 2
      \<and> smoothing_alpha (run counter_robot (?cs @ [Reset, Step [0, 0, 0]]) (trained_env 1 3 (1 / 4) 0)) = 1 / 2"
    by (simp only: ints) simp
  with made ints count show ?thesis by blast
qed

text \<open>
  Claim C1, as it is stated for every environment constructed without \<open>is_test\<close>,
  fails in four ways. With \<open>start_after\<close> above \<open>stop_after\<close> (start episode 6, stop
  episode 2) no episode is inside the increase window: at episode count 2 the
  coefficient is still 0, not the \<open>final_alpha\<close> of one half. With a negative
  \<open>final_alpha\<close> the coefficient goes down from 0 to minus a quarter. With a negative
  \<open>start_after\<close> (start episode -2, stop episode 4) only four of the six increase steps
  are taken: at episode count 4 the coefficient is a third, not one half. And in double
  precision three increases by \<open>0.9 / 3\<close> from zero end one place below \<open>0.9\<close>.
\<close>

theorem smoothing_alpha_off_schedule:
  "init counter_robot 0 1 wide_observation_space sample_action_space (2 / 1000) False
      (training_params 8 (3 / 4) (1 / 4) (1 / 2)) False = Inr (trained_env 6 2 (- (1 / 8)) 0)
   \<and> smoothing_stop_episode (run counter_robot [Reset] (trained_env 6 2 (- (1 / 8)) 0)) = Some 2
   \<and> episode_count (run counter_robot [Reset] (trained_env 6 2 (- (1 / 8)) 0)) = 2
   \<and> smoothing_alpha (run counter_robot [Reset] (trained_env 6 2 (- (1 / 8)) 0)) = 0
   \<and> init counter_robot 0 1 wide_observation_space sample_action_space (2 / 1000) False
      (training_params 4 (1 / 4) (3 / 4) (- (1 / 2))) False = Inr (trained_env 1 3 (- (1 / 4)) 0)
   \<and> smoothing_alpha (trained_env 1 3 (- (1 / 4)) 0) = 0
   \<and> smoothing_alpha (run counter_robot [Reset] (trained_env 1 3 (- (1 / 4)) 0)) = - (1 / 4)
   \<and> init counter_robot 0 1 wide_observation_space sample_action_space (2 / 1000) False
      (training_params 8 (- (1 / 4)) (1 / 2) (1 / 2)) False = Inr (trained_env (- 2) 4 (1 / 12) (1 / 12))
   \<and> episode_count (run counter_robot [Reset, Reset, Reset] (trained_env (- 2) 4 (1 / 12) (1 / 12))) = 4
   \<and> smoothing_alpha (run counter_robot [Reset, Reset, Reset] (trained_env (- 2) 4 (1 / 12) (1 / 12))) = 1 / 3
   \<and> to_double (9 / 10) = 8106479329266893 / 9007199254740992
   \<and> increase_double (to_double (to_double (9 / 10) / 3)) 3 0 = 2026619832316723 / 2251799813685248
   \<and> increase_double (to_double (to_double (9 / 10) / 3)) 3 0 \<noteq> to_double (9 / 10)"
  using run_counter_robot(1,2,3) init_trained(1,3) init_trained_more(1)
  by (simp only: increase_double_inexact) (simp add: schedule_def trained_env_def double_nine_tenths)

end
